theory Spec2Isabelle
  imports Main "HOL-Library.Sublist"
begin

section \<open>JavaScript values\<close>

text \<open>
  The client of \<^verbatim>\<open>lrsManagementRest.js\<close> is written in JavaScript: its options are
  dynamically typed objects, its checks are truthiness checks. The values the program
  handles are modelled by one datatype. Numbers are the integer-valued ones (ports,
  lengths, JSON integers). Strings are character lists, and the length of a string is the
  number of its characters. A function is identified by its source text, which is also what
  string concatenation prints for it. An object is the list of its own enumerable
  properties in enumeration order; values are trees, so an object that contains itself has
  no counterpart here.
\<close>

datatype jsval =
    JUndefined
  | JNull
  | JBool bool
  | JNum int
  | JStr string
  | JFun string
  | JArr "jsval list"
  | JObj "(string \<times> jsval) list"

type_synonym obj = "(string \<times> jsval) list"

text \<open>A thrown exception: \<^verbatim>\<open>new Error(message)\<close>, or a \<^verbatim>\<open>TypeError\<close> of the
  engine, tagged with the operation that raised it (its message text is the engine's), or
  what an event emitter throws for an \<^verbatim>\<open>error\<close> event without a listener, with the
  event's argument.\<close>

datatype jserror = Error string | TypeError string | Unhandled jsval

text \<open>Truthiness, \<^verbatim>\<open>a || b\<close>.\<close>

fun truthy :: "jsval \<Rightarrow> bool" where
  "truthy JUndefined = False"
| "truthy JNull = False"
| "truthy (JBool b) = b"
| "truthy (JNum n) = (n \<noteq> 0)"
| "truthy (JStr s) = (s \<noteq> [])"
| "truthy (JFun f) = True"
| "truthy (JArr xs) = True"
| "truthy (JObj ps) = True"

definition js_or :: "jsval \<Rightarrow> jsval \<Rightarrow> jsval" where
  "js_or a b = (if truthy a then a else b)"

text \<open>Decimal printing of numbers, and \<^verbatim>\<open>ToString\<close> as string concatenation applies it.\<close>

definition digit_char :: "nat \<Rightarrow> char" where
  "digit_char d = ''0123456789'' ! d"

fun showNat :: "nat \<Rightarrow> string" where
  "showNat n = (if n < 10 then [digit_char n] else showNat (n div 10) @ [digit_char (n mod 10)])"

declare showNat.simps [simp del]

definition showInt :: "int \<Rightarrow> string" where
  "showInt i = (if i < 0 then CHR ''-'' # showNat (nat (- i)) else showNat (nat i))"

fun join :: "string \<Rightarrow> string list \<Rightarrow> string" where
  "join sep [] = []"
| "join sep [x] = x"
| "join sep (x # y # ys) = x @ sep @ join sep (y # ys)"

fun js_toString :: "jsval \<Rightarrow> string" where
  "js_toString JUndefined = ''undefined''"
| "js_toString JNull = ''null''"
| "js_toString (JBool b) = (if b then ''true'' else ''false'')"
| "js_toString (JNum n) = showInt n"
| "js_toString (JStr s) = s"
| "js_toString (JFun f) = f"
| "js_toString (JArr xs) =
     join '','' (map (\<lambda>x. if x = JUndefined \<or> x = JNull then [] else js_toString x) xs)"
| "js_toString (JObj ps) = ''[object Object]''"

text \<open>Own properties. Reading a property of \<^verbatim>\<open>undefined\<close> or \<^verbatim>\<open>null\<close> throws; arrays
  and strings have their indices and \<^verbatim>\<open>length\<close>; inherited properties are not
  modelled (the program reads none by these names).\<close>

definition getOwn :: "obj \<Rightarrow> string \<Rightarrow> jsval" where
  "getOwn ps k = (case map_of ps k of None \<Rightarrow> JUndefined | Some v \<Rightarrow> v)"

fun setOwn :: "string \<Rightarrow> jsval \<Rightarrow> obj \<Rightarrow> obj" where
  "setOwn k v [] = [(k, v)]"
| "setOwn k v (p # ps) = (if fst p = k then (k, v) # ps else p # setOwn k v ps)"

definition indexed :: "jsval list \<Rightarrow> obj" where
  "indexed xs = zip (map showNat [0..<length xs]) xs"

definition getProp :: "jsval \<Rightarrow> string \<Rightarrow> jserror + jsval" where
  "getProp v k =
     (case v of
        JUndefined \<Rightarrow> Inl (TypeError (''property '' @ k @ '' of undefined''))
      | JNull \<Rightarrow> Inl (TypeError (''property '' @ k @ '' of null''))
      | JObj ps \<Rightarrow> Inr (getOwn ps k)
      | JArr xs \<Rightarrow> Inr (getOwn (indexed xs @ [(''length'', JNum (int (length xs)))]) k)
      | JStr s \<Rightarrow>
          Inr (getOwn (indexed (map (\<lambda>c. JStr [c]) s) @ [(''length'', JNum (int (length s)))]) k)
      | _ \<Rightarrow> Inr JUndefined)"

text \<open>The properties a \<^verbatim>\<open>for (key in v)\<close> loop visits.\<close>

definition enumerable :: "jsval \<Rightarrow> obj" where
  "enumerable v =
     (case v of
        JObj ps \<Rightarrow> ps
      | JArr xs \<Rightarrow> indexed xs
      | JStr s \<Rightarrow> indexed (map (\<lambda>c. JStr [c]) s)
      | _ \<Rightarrow> [])"

text \<open>An argument vector read past its end gives \<^verbatim>\<open>undefined\<close>.\<close>

definition arg :: "jsval list \<Rightarrow> nat \<Rightarrow> jsval" where
  "arg args i = (if i < length args then args ! i else JUndefined)"


section \<open>Strings: \<^verbatim>\<open>indexOf\<close>, \<^verbatim>\<open>split\<close>, \<^verbatim>\<open>JSON.stringify\<close>\<close>

definition isString :: "jsval \<Rightarrow> bool" where
  "isString v = (case v of JStr s \<Rightarrow> True | _ \<Rightarrow> False)"

text \<open>\<^verbatim>\<open>s.indexOf(pat)\<close>: the first position where \<open>pat\<close> starts, or \<open>-1\<close>.\<close>

fun indexOf_from :: "nat \<Rightarrow> string \<Rightarrow> string \<Rightarrow> int" where
  "indexOf_from i [] pat = (if pat = [] then int i else - 1)"
| "indexOf_from i (c # cs) pat =
     (if prefix pat (c # cs) then int i else indexOf_from (Suc i) cs pat)"

definition indexOf :: "string \<Rightarrow> string \<Rightarrow> int" where
  "indexOf s pat = indexOf_from 0 s pat"

text \<open>\<^verbatim>\<open>s.split(sep)\<close> for a string separator: the pieces between the occurrences of
  \<open>sep\<close>, scanning from the left; an empty separator gives the single characters.\<close>

function split_from :: "string \<Rightarrow> string \<Rightarrow> string \<Rightarrow> string list" where
  "split_from sep cur [] = [cur]"
| "split_from sep cur (c # cs) =
     (if sep \<noteq> [] \<and> prefix sep (c # cs)
      then cur # split_from sep [] (drop (length sep) (c # cs))
      else split_from sep (cur @ [c]) cs)"
  by pat_completeness auto
termination
  by (relation "measure (\<lambda>(sep, cur, s). length s)") auto

definition split :: "string \<Rightarrow> string \<Rightarrow> string list" where
  "split s sep = (if sep = [] then map (\<lambda>c. [c]) s else split_from sep [] s)"

text \<open>\<^verbatim>\<open>JSON.stringify\<close>: \<^verbatim>\<open>undefined\<close> and functions have no JSON text (the result
  is \<^verbatim>\<open>undefined\<close>); inside an array they print as \<^verbatim>\<open>null\<close>, inside an object the
  property is left out.\<close>

definition hex_char :: "nat \<Rightarrow> char" where
  "hex_char d = ''0123456789abcdef'' ! d"

definition json_escape :: "char \<Rightarrow> string" where
  "json_escape c =
     (let n = (of_char c :: nat) in
      if n = 0x22 then [CHR 0x5C, CHR 0x22]
      else if n = 0x5C then [CHR 0x5C, CHR 0x5C]
      else if n = 8 then [CHR 0x5C, CHR ''b'']
      else if n = 9 then [CHR 0x5C, CHR ''t'']
      else if n = 10 then [CHR 0x5C, CHR ''n'']
      else if n = 12 then [CHR 0x5C, CHR ''f'']
      else if n = 13 then [CHR 0x5C, CHR ''r'']
      else if n < 32 then [CHR 0x5C, CHR ''u'', CHR ''0'', CHR ''0'', hex_char (n div 16), hex_char (n mod 16)]
      else [c])"

definition JSON_quote :: "string \<Rightarrow> string" where
  "JSON_quote s = CHR 0x22 # concat (map json_escape s) @ [CHR 0x22]"

fun serialize :: "jsval \<Rightarrow> string option" where
  "serialize JUndefined = None"
| "serialize (JFun f) = None"
| "serialize JNull = Some ''null''"
| "serialize (JBool b) = Some (if b then ''true'' else ''false'')"
| "serialize (JNum n) = Some (showInt n)"
| "serialize (JStr s) = Some (JSON_quote s)"
| "serialize (JArr xs) =
     Some (''['' @ join '','' (map (\<lambda>x. case serialize x of None \<Rightarrow> ''null'' | Some t \<Rightarrow> t) xs) @ '']'')"
| "serialize (JObj ps) =
     Some (''{'' @ join '','' (concat (map (\<lambda>p. case serialize (snd p) of
                                                   None \<Rightarrow> []
                                                 | Some t \<Rightarrow> [JSON_quote (fst p) @ '':'' @ t]) ps)) @ ''}'')"

text \<open>\<^verbatim>\<open>JSON.stringify\<close> throws on a value that contains itself; no tree-shaped value
  does, so this model always returns.\<close>

definition JSON_stringify :: "jsval \<Rightarrow> jserror + jsval" where
  "JSON_stringify v = Inr (case serialize v of None \<Rightarrow> JUndefined | Some t \<Rightarrow> JStr t)"

definition message :: "jserror \<Rightarrow> string" where
  "message e = (case e of Error m \<Rightarrow> m | TypeError m \<Rightarrow> m | Unhandled v \<Rightarrow> ''Unhandled error.'')"

definition toJsonString :: "jsval \<Rightarrow> jserror + jsval" where
  "toJsonString a =
     (if isString a then Inr a
      else case JSON_stringify a of
             Inr t \<Rightarrow> Inr t
           | Inl err \<Rightarrow>
               Inl (Error (''Argument could not be converted to JSON'' @
                           (if message err \<noteq> [] then '' ('' @ message err @ '')'' else []))))"

section \<open>Option handling\<close>

definition unixSockName :: string where
  "unixSockName = ''/tmp/rest_server/http.sock''"

text \<open>\<^verbatim>\<open>Object.getOwnPropertyNames\<close> throws on \<^verbatim>\<open>undefined\<close> (\<open>None\<close>).\<close>

definition getOwnPropertyNames :: "obj option \<Rightarrow> jserror + string list" where
  "getOwnPropertyNames v =
     (case v of
        None \<Rightarrow> Inl (TypeError ''Object.getOwnPropertyNames of undefined'')
      | Some ps \<Rightarrow> Inr (map fst ps))"

definition props :: "obj option \<Rightarrow> obj" where
  "props v = (case v of None \<Rightarrow> [] | Some ps \<Rightarrow> ps)"

definition copyProps :: "obj option \<Rightarrow> string list \<Rightarrow> obj \<Rightarrow> obj" where
  "copyProps src names obj3 = fold (\<lambda>attrname. setOwn attrname (getOwn (props src) attrname)) names obj3"

definition mergeOptions :: "obj option \<Rightarrow> obj option \<Rightarrow> jserror + obj" where
  "mergeOptions obj1 obj2 =
     (case getOwnPropertyNames obj1 of
        Inl e \<Rightarrow> Inl e
      | Inr names1 \<Rightarrow>
          (let obj3 = copyProps obj1 names1 [] in
           case getOwnPropertyNames obj2 of
             Inl e \<Rightarrow> Inl e
           | Inr names2 \<Rightarrow> Inr (copyProps obj2 names2 obj3)))"

definition missingArgError :: "string \<Rightarrow> jserror" where
  "missingArgError name = Error (''Missing required argument: '' @ name)"

text \<open>\<^verbatim>\<open>testRequiredOptions\<close> returns nothing; \<open>Some e\<close> is the exception it throws.\<close>

fun testRequiredOptions :: "jsval \<Rightarrow> string list \<Rightarrow> jserror option" where
  "testRequiredOptions options [] = None"
| "testRequiredOptions options (opt # rest) =
     (case getProp options opt of
        Inl e \<Rightarrow> Some e
      | Inr v \<Rightarrow> if \<not> truthy v then Some (missingArgError opt) else testRequiredOptions options rest)"

definition moreArgumentsError :: "string list \<Rightarrow> jserror" where
  "moreArgumentsError requiredArgs = Error (''More arguments required ('' @ join '','' requiredArgs @ '')'')"

text \<open>The loop \<^verbatim>\<open>for (i = 0; i < n; ++i) toReturn[names[i]] = args[off + i]\<close>; in both
  of its uses \<open>n\<close> is at most the number of names.\<close>

definition assignArgs :: "string list \<Rightarrow> jsval list \<Rightarrow> nat \<Rightarrow> nat \<Rightarrow> obj \<Rightarrow> obj" where
  "assignArgs names args off n toReturn =
     fold (\<lambda>i. setOwn (names ! i) (arg args (off + i))) [0..<n] toReturn"

definition parseOptions :: "jsval list \<Rightarrow> string list \<Rightarrow> string list \<Rightarrow> jserror + obj" where
  "parseOptions args requiredArgs optionalArgs =
     (if length args = 0 then
        (if length requiredArgs = 0 then Inr [] else Inl (moreArgumentsError requiredArgs))
      else if isString (arg args 0) then
        (if length args < length requiredArgs then Inl (moreArgumentsError requiredArgs)
         else
           (let toReturn = assignArgs requiredArgs args 0 (length requiredArgs) [];
                availOptionalArgs = min (length args - length requiredArgs) (length optionalArgs)
            in Inr (assignArgs optionalArgs args (length requiredArgs) availOptionalArgs toReturn)))
      else
        (case testRequiredOptions (arg args 0) requiredArgs of
           Some e \<Rightarrow> Inl e
         | None \<Rightarrow>
             (let toReturn = fold (\<lambda>p. setOwn (fst p) (snd p)) (enumerable (arg args 0)) [];
                  availOptionalArgs = min (length args - 1) (length optionalArgs)
              in Inr (assignArgs optionalArgs args 1 availOptionalArgs toReturn))))"


section \<open>Requests, responses and the client\<close>

text \<open>
  The HTTP transport is Node's. A request is what \<^verbatim>\<open>http.request\<close> was given and what
  the program did to the returned object: the options, the response callback, the headers
  (set from the options' \<^verbatim>\<open>headers\<close> object, then changed by \<^verbatim>\<open>removeHeader\<close> and
  \<^verbatim>\<open>setHeader\<close>), the listeners of its \<^verbatim>\<open>error\<close> event, the chunks written and whether
  \<^verbatim>\<open>end\<close> was called. A response is its status, its headers (Node gives their names in
  lower case) and the chunks of its body as its \<^verbatim>\<open>data\<close> events deliver them.
\<close>

text \<open>
  The listeners of a request's \<^verbatim>\<open>error\<close> event: the program's own three, and the
  caller's. A caller's listener is persistent (\<^verbatim>\<open>on\<close>, \<^verbatim>\<open>prependListener\<close>) or
  one-shot (\<^verbatim>\<open>once\<close>, \<^verbatim>\<open>prependOnceListener\<close>); a one-shot listener takes itself off
  the request when it is called.
\<close>

datatype listener =
    LoginRequestFailure
  | LogoutRequestFailure
  | ErrorProxy
  | Caller string
  | CallerOnce string

record request =
  requestOptions :: obj
  callback :: jsval
  reqHeaders :: obj
  errorListeners :: "listener list"
  written :: "jsval list"
  ended :: bool

record response =
  statusCode :: int
  headers :: obj
  chunks :: "string list"

definition http_request :: "obj \<Rightarrow> jsval \<Rightarrow> request" where
  "http_request opts cb =
     \<lparr> requestOptions = opts, callback = cb,
       reqHeaders = (case getOwn opts ''headers'' of JObj hs \<Rightarrow> hs | _ \<Rightarrow> []),
       errorListeners = [], written = [], ended = False \<rparr>"

definition removeHeader :: "string \<Rightarrow> request \<Rightarrow> request" where
  "removeHeader name req = req\<lparr>reqHeaders := filter (\<lambda>p. fst p \<noteq> name) (reqHeaders req)\<rparr>"

definition setHeader :: "string \<Rightarrow> jsval \<Rightarrow> request \<Rightarrow> request" where
  "setHeader name v req = req\<lparr>reqHeaders := setOwn name v (reqHeaders req)\<rparr>"

definition on_error :: "listener \<Rightarrow> request \<Rightarrow> request" where
  "on_error l req = req\<lparr>errorListeners := errorListeners req @ [l]\<rparr>"

definition prepend_error :: "listener \<Rightarrow> request \<Rightarrow> request" where
  "prepend_error l req = req\<lparr>errorListeners := l # errorListeners req\<rparr>"

definition remove_error :: "listener \<Rightarrow> request \<Rightarrow> request" where
  "remove_error l req = req\<lparr>errorListeners := remove1 l (errorListeners req)\<rparr>"

definition req_write :: "jsval \<Rightarrow> request \<Rightarrow> request" where
  "req_write chunk req = req\<lparr>written := written req @ [chunk]\<rparr>"

definition req_end :: "request \<Rightarrow> request" where
  "req_end req = req\<lparr>ended := True\<rparr>"

text \<open>
  The client object: its four fields, and what it has done so far, which is what the
  claims observe: the events it emitted (oldest first), the callbacks it handed to
  \<^verbatim>\<open>process.nextTick\<close> that have not run yet, and the requests it has sent. The
  constructor leaves \<^verbatim>\<open>sid\<close> and \<^verbatim>\<open>connectionOptions\<close> undefined; only \<^verbatim>\<open>logIn\<close>
  assigns \<^verbatim>\<open>connectionOptions\<close>, always a fresh object, so it is an optional object.
  Listeners of the client's events are the caller's, and what they do is the caller's
  business: \<open>deliver\<close> records that an event went out to them. The client is an event
  emitter, and Node's \<^verbatim>\<open>emit\<close> throws when the event is \<^verbatim>\<open>error\<close> and nobody
  listens to it (the event's argument when that is an \<^verbatim>\<open>Error\<close>, an \<^verbatim>\<open>Error\<close> about
  it otherwise: \<open>Unhandled\<close>). So the client also counts the listeners the caller has
  registered for its \<^verbatim>\<open>error\<close> event, none after construction.
\<close>

datatype event =
    Emit_login
  | Emit_logout
  | Emit_loginFailure response string
  | Emit_loginRequestFailure jsval
  | Emit_logoutRequestFailure jsval
  | Emit_error jsval

datatype tick = Tick_login

record client =
  loggedIn :: bool
  sid :: jsval
  apiPrefix :: string
  connectionOptions :: "obj option"
  emitted :: "event list"
  nextTick :: "tick list"
  sent :: "request list"
  errorHandlers :: nat

definition Client :: client where
  "Client = \<lparr> loggedIn = False, sid = JUndefined, apiPrefix = ''/lrs/api/v1.0'',
              connectionOptions = None, emitted = [], nextTick = [], sent = [],
              errorHandlers = 0 \<rparr>"

text \<open>The caller's \<^verbatim>\<open>client.on('error', f)\<close>.\<close>

definition client_on_error :: "client \<Rightarrow> client" where
  "client_on_error self = self\<lparr>errorHandlers := Suc (errorHandlers self)\<rparr>"

definition deliver :: "event \<Rightarrow> client \<Rightarrow> client" where
  "deliver ev self = self\<lparr>emitted := emitted self @ [ev]\<rparr>"

definition emit :: "event \<Rightarrow> client \<Rightarrow> (jserror + unit) \<times> client" where
  "emit ev self =
     (case ev of
        Emit_error v \<Rightarrow>
          if errorHandlers self = 0 then (Inl (Unhandled v), self)
          else (Inr (), deliver ev self)
      | _ \<Rightarrow> (Inr (), deliver ev self))"

section \<open>The request builders\<close>

text \<open>\<^verbatim>\<open>requestOptions.headers.Cookie = cookie\<close>, in strict mode: a \<^verbatim>\<open>TypeError\<close> when
  \<^verbatim>\<open>headers\<close> is not an object. (An array or a function would take the property; the
  value type has no place for it, and the builders' own \<^verbatim>\<open>headers\<close> is an object.)\<close>

definition setCookie :: "jsval \<Rightarrow> obj \<Rightarrow> jserror + obj" where
  "setCookie cookie reqOpts =
     (case getOwn reqOpts ''headers'' of
        JObj hs \<Rightarrow> Inr (setOwn ''headers'' (JObj (setOwn ''Cookie'' cookie hs)) reqOpts)
      | _ \<Rightarrow> Inl (TypeError ''set property Cookie''))"

text \<open>The four builders end with the same lines: merge the connection options in, add the
  cookie, create the request, replace its \<^verbatim>\<open>Host\<close> header.\<close>

definition finishReq :: "obj \<Rightarrow> obj \<Rightarrow> obj option \<Rightarrow> jserror + request" where
  "finishReq options reqOpts connOpts =
     (case mergeOptions (Some reqOpts) connOpts of
        Inl e \<Rightarrow> Inl e
      | Inr merged \<Rightarrow>
          (case (if truthy (getOwn options ''cookie'')
                 then setCookie (getOwn options ''cookie'') merged else Inr merged) of
             Inl e \<Rightarrow> Inl e
           | Inr withCookie \<Rightarrow>
               Inr (setHeader ''Host''
                      (JStr (js_toString (getOwn options ''host'') @ '':'' @
                             js_toString (getOwn options ''port'')))
                      (removeHeader ''Host''
                         (http_request withCookie (getOwn options ''callback''))))))"

definition getPostReq :: "obj \<Rightarrow> obj option \<Rightarrow> jserror + request" where
  "getPostReq options connOpts =
     (case testRequiredOptions (JObj options) [''path'', ''contentLength'', ''contentType''] of
        Some e \<Rightarrow> Inl e
      | None \<Rightarrow>
          finishReq options
            [(''path'', getOwn options ''path''), (''method'', JStr ''POST''),
             (''agent'', JBool False),
             (''headers'', JObj [(''Accept'', JStr ''*/*''),
                                (''Content-Length'', getOwn options ''contentLength''),
                                (''Content-Type'', getOwn options ''contentType'')])]
            connOpts)"

definition getGetReq :: "obj \<Rightarrow> obj option \<Rightarrow> jserror + request" where
  "getGetReq options connOpts =
     (case testRequiredOptions (JObj options) [''path''] of
        Some e \<Rightarrow> Inl e
      | None \<Rightarrow>
          finishReq options
            [(''path'', getOwn options ''path''), (''method'', JStr ''GET''),
             (''agent'', JBool False),
             (''headers'', JObj [(''Accept'', JStr ''*/*'')])]
            connOpts)"

definition getDeleteReq :: "obj \<Rightarrow> obj option \<Rightarrow> jserror + request" where
  "getDeleteReq options connOpts =
     (case testRequiredOptions (JObj options) [''path''] of
        Some e \<Rightarrow> Inl e
      | None \<Rightarrow>
          finishReq options
            [(''path'', getOwn options ''path''), (''method'', JStr ''DELETE''),
             (''headers'', JObj [(''Accept'', JStr ''*/*'')])]
            connOpts)"

definition getPutReq :: "obj \<Rightarrow> obj option \<Rightarrow> jserror + request" where
  "getPutReq options connOpts =
     (case testRequiredOptions (JObj options) [''path'', ''contentLength'', ''contentType''] of
        Some e \<Rightarrow> Inl e
      | None \<Rightarrow>
          finishReq options
            [(''path'', getOwn options ''path''), (''method'', JStr ''PUT''),
             (''headers'', JObj [(''Accept'', JStr ''*/*''),
                                (''Content-Length'', getOwn options ''contentLength''),
                                (''Content-Type'', getOwn options ''contentType'')])]
            connOpts)"


section \<open>The client's operations\<close>

text \<open>
  Each operation takes the client and returns what the call does (\<open>Inl\<close> the exception
  it throws, \<open>Inr\<close> its return value) together with the client afterwards.
  \<open>safeOpts\<close> is \<^verbatim>\<open>options || {}\<close>, a truthy value, so reading its properties never
  throws: \<open>optProp\<close> is that read.
\<close>

definition optProp :: "jsval \<Rightarrow> string \<Rightarrow> jsval" where
  "optProp v k = (case getProp v k of Inl e \<Rightarrow> JUndefined | Inr x \<Rightarrow> x)"

definition logIn_callback :: jsval where
  "logIn_callback = JFun ''logIn.localOptions.callback''"

definition logOut_callback :: jsval where
  "logOut_callback = JFun ''logOut.localOptions.callback''"

definition printResponse :: jsval where
  "printResponse = JFun ''printResponse''"

definition logIn :: "client \<Rightarrow> jsval \<Rightarrow> (jserror + unit) \<times> client" where
  "logIn self options =
     (let safeOpts = js_or options (JObj []) in
      if truthy (optProp safeOpts ''username'') \<and> \<not> truthy (optProp safeOpts ''password'') then
        emit (Emit_error (JObj [(''message'',
            JStr (''Client login options contained the username '' @ '' but no password.''))])) self
      else if \<not> truthy (optProp safeOpts ''username'') \<and> truthy (optProp safeOpts ''password'') then
        emit (Emit_error (JObj [(''message'',
            JStr (''Client login options contained the password '' @ '' but no username.''))])) self
      else
        (let username = js_or (optProp safeOpts ''username'') (JStr ''testlab'');
             password = js_or (optProp safeOpts ''password'') (JStr ''changeme'');
             data = ''username='' @ js_toString username @ ''&password='' @ js_toString password;
             localOptions =
               [(''path'', js_or (optProp safeOpts ''path'') (JStr ''/login'')),
                (''contentLength'', JNum (int (length data))),
                (''contentType'', JStr ''application/x-www-form-urlencoded'')];
             self1 = self\<lparr>connectionOptions := Some []\<rparr>
         in
           if truthy (optProp safeOpts ''host'') \<or> truthy (optProp safeOpts ''port'') then
             (let localOptions1 =
                    setOwn ''port'' (js_or (optProp safeOpts ''port'') (JNum 3001))
                      (setOwn ''host'' (js_or (optProp safeOpts ''host'') (JStr ''127.0.0.1''))
                         localOptions);
                  self2 = self1\<lparr>connectionOptions :=
                            Some (setOwn ''port'' (getOwn localOptions1 ''port'')
                                   (setOwn ''host'' (getOwn localOptions1 ''host'')
                                      (props (connectionOptions self1))))\<rparr>;
                  localOptions2 = setOwn ''callback'' logIn_callback localOptions1
              in
                case getPostReq localOptions2 (connectionOptions self2) of
                  Inl e \<Rightarrow> (Inl e, self2)
                | Inr req \<Rightarrow>
                    (Inr (), self2\<lparr>sent := sent self2 @
                       [req_end (req_write (JStr data) (on_error LoginRequestFailure req))]\<rparr>))
           else
             (let localOptions1 = setOwn ''socketPath'' (JStr unixSockName) localOptions;
                  self2 = self1\<lparr>connectionOptions :=
                            Some (setOwn ''socketPath'' (getOwn localOptions1 ''socketPath'')
                                    (props (connectionOptions self1)))\<rparr>
              in (Inr (), self2\<lparr>nextTick := nextTick self2 @ [Tick_login]\<rparr>))))"

text \<open>A callback given to \<^verbatim>\<open>process.nextTick\<close> runs on the next tick; the only one is
  \<^verbatim>\<open>logIn\<close>'s.\<close>

fun runTick :: "tick \<Rightarrow> client \<Rightarrow> (jserror + unit) \<times> client" where
  "runTick Tick_login self = emit Emit_login (self\<lparr>loggedIn := True\<rparr>)"

definition runNextTick :: "client \<Rightarrow> (jserror + unit) \<times> client" where
  "runNextTick self =
     (case nextTick self of
        [] \<Rightarrow> (Inr (), self)
      | t # ts \<Rightarrow> runTick t (self\<lparr>nextTick := ts\<rparr>))"

text \<open>The response callback of \<^verbatim>\<open>logIn\<close>: every \<^verbatim>\<open>data\<close> event appends its chunk to
  \<open>body\<close>, the \<^verbatim>\<open>end\<close> event runs \<^verbatim>\<open>checkBody\<close>. \<^verbatim>\<open>setCookieHdr.split\<close> is a
  \<^verbatim>\<open>TypeError\<close> unless \<^verbatim>\<open>setCookieHdr\<close> is a string.\<close>

definition checkBody :: "client \<Rightarrow> response \<Rightarrow> string \<Rightarrow> (jserror + unit) \<times> client" where
  "checkBody self loginResponse body =
     (if indexOf body ''login'' \<noteq> - 1 then
        emit (Emit_loginFailure loginResponse body) self
      else
        (let setCookieHdr0 = getOwn (headers loginResponse) ''set-cookie'';
             setCookieHdr = (case setCookieHdr0 of JArr xs \<Rightarrow> arg xs 0 | _ \<Rightarrow> setCookieHdr0)
         in
           case setCookieHdr of
             JStr h \<Rightarrow>
               emit Emit_login
                 (self\<lparr>sid := (case split h ''; '' of [] \<Rightarrow> JUndefined | x # xs \<Rightarrow> JStr x),
                       loggedIn := True\<rparr>)
           | _ \<Rightarrow> (Inl (TypeError ''setCookieHdr.split''), self)))"

definition logIn_response :: "client \<Rightarrow> response \<Rightarrow> (jserror + unit) \<times> client" where
  "logIn_response self loginResponse =
     checkBody self loginResponse (foldl (\<lambda>body chunk. body @ chunk) [] (chunks loginResponse))"

definition logOut :: "client \<Rightarrow> jsval \<Rightarrow> (jserror + unit) \<times> client" where
  "logOut self options =
     (let safeOpts = js_or options (JObj []);
          localOptions =
            [(''path'', js_or (optProp safeOpts ''path'') (JStr ''/logout'')),
             (''cookie'', sid self),
             (''callback'', logOut_callback)]
      in
        case getGetReq localOptions (connectionOptions self) of
          Inl e \<Rightarrow> (Inl e, self)
        | Inr req \<Rightarrow>
            (Inr (), self\<lparr>sent := sent self @ [req_end (on_error LogoutRequestFailure req)]\<rparr>))"

definition logOut_response :: "client \<Rightarrow> response \<Rightarrow> (jserror + unit) \<times> client" where
  "logOut_response self logoutResponse = emit Emit_logout (self\<lparr>loggedIn := False\<rparr>)"

definition installErrorProxy :: "request \<Rightarrow> request" where
  "installErrorProxy req = on_error ErrorProxy req"

definition getJSON :: "client \<Rightarrow> jsval list \<Rightarrow> (jserror + request) \<times> client" where
  "getJSON self arguments =
     (case parseOptions arguments [''path''] [''callback''] of
        Inl e \<Rightarrow> (Inl e, self)
      | Inr options \<Rightarrow>
          (let localOptions =
                 [(''path'', JStr (apiPrefix self @ js_toString (getOwn options ''path''))),
                  (''cookie'', sid self),
                  (''callback'', js_or (getOwn options ''callback'') printResponse)]
           in
             case getGetReq localOptions (connectionOptions self) of
               Inl e \<Rightarrow> (Inl e, self)
             | Inr req \<Rightarrow>
                 (let req1 = req_end (installErrorProxy req)
                  in (Inr req1, self\<lparr>sent := sent self @ [req1]\<rparr>))))"

definition deleteJSON :: "client \<Rightarrow> jsval list \<Rightarrow> (jserror + request) \<times> client" where
  "deleteJSON self arguments =
     (case parseOptions arguments [''path''] [''callback''] of
        Inl e \<Rightarrow> (Inl e, self)
      | Inr options \<Rightarrow>
          (let localOptions =
                 [(''path'', JStr (apiPrefix self @ js_toString (getOwn options ''path''))),
                  (''cookie'', sid self),
                  (''callback'', js_or (getOwn options ''callback'') printResponse)]
           in
             case getDeleteReq localOptions (connectionOptions self) of
               Inl e \<Rightarrow> (Inl e, self)
             | Inr req \<Rightarrow>
                 (let req1 = req_end (installErrorProxy req)
                  in (Inr req1, self\<lparr>sent := sent self @ [req1]\<rparr>))))"

definition putJSON :: "client \<Rightarrow> jsval list \<Rightarrow> (jserror + request) \<times> client" where
  "putJSON self arguments =
     (case parseOptions arguments [''path'', ''body''] [''callback''] of
        Inl e \<Rightarrow> (Inl e, self)
      | Inr options \<Rightarrow>
          (case toJsonString (getOwn options ''body'') of
             Inl e \<Rightarrow> (Inl e, self)
           | Inr jsonString \<Rightarrow>
               (case getProp jsonString ''length'' of
                  Inl e \<Rightarrow> (Inl e, self)
                | Inr len \<Rightarrow>
                    (let localOptions =
                           [(''path'', JStr (apiPrefix self @ js_toString (getOwn options ''path''))),
                            (''contentLength'', len),
                            (''contentType'', JStr ''application/json''),
                            (''cookie'', sid self),
                            (''callback'', js_or (getOwn options ''callback'') printResponse)]
                     in
                       case getPutReq localOptions (connectionOptions self) of
                         Inl e \<Rightarrow> (Inl e, self)
                       | Inr req \<Rightarrow>
                           (let req1 = req_end (req_write jsonString (installErrorProxy req))
                            in (Inr req1, self\<lparr>sent := sent self @ [req1]\<rparr>))))))"

definition postJSON :: "client \<Rightarrow> jsval list \<Rightarrow> (jserror + request) \<times> client" where
  "postJSON self arguments =
     (case parseOptions arguments [''path'', ''body''] [''callback''] of
        Inl e \<Rightarrow> (Inl e, self)
      | Inr options \<Rightarrow>
          (case toJsonString (getOwn options ''body'') of
             Inl e \<Rightarrow> (Inl e, self)
           | Inr jsonString \<Rightarrow>
               (case getProp jsonString ''length'' of
                  Inl e \<Rightarrow> (Inl e, self)
                | Inr len \<Rightarrow>
                    (let localOptions =
                           [(''path'', JStr (apiPrefix self @ js_toString (getOwn options ''path''))),
                            (''contentLength'', len),
                            (''contentType'', JStr ''application/json''),
                            (''cookie'', sid self),
                            (''callback'', js_or (getOwn options ''callback'') printResponse)]
                     in
                       case getPostReq localOptions (connectionOptions self) of
                         Inl e \<Rightarrow> (Inl e, self)
                       | Inr req \<Rightarrow>
                           (let req1 = req_end (req_write jsonString (installErrorProxy req))
                            in (Inr req1, self\<lparr>sent := sent self @ [req1]\<rparr>))))))"

text \<open>
  A transport error on a request is its \<^verbatim>\<open>error\<close> event. Node's \<^verbatim>\<open>emit\<close> throws when
  the request has no listener for it; otherwise it calls the listeners registered at that
  moment, in their order, each on the request as it is by then: a one-shot listener has
  taken itself off the request before its function runs, and the error proxy counts the
  listeners the request has when the proxy runs. A listener that throws ends the
  dispatch. The program's own listeners are the two of \<^verbatim>\<open>logIn\<close> and \<^verbatim>\<open>logOut\<close> and
  the error proxy; what a listener of the caller's does is the caller's business.
\<close>

fun runErrorListener ::
  "listener \<Rightarrow> jsval \<Rightarrow> request \<Rightarrow> client \<Rightarrow> (jserror + unit) \<times> request \<times> client" where
  "runErrorListener LoginRequestFailure error req self =
     (case emit (Emit_loginRequestFailure error) self of (r, self') \<Rightarrow> (r, req, self'))"
| "runErrorListener LogoutRequestFailure error req self =
     (case emit (Emit_logoutRequestFailure error) self of (r, self') \<Rightarrow> (r, req, self'))"
| "runErrorListener ErrorProxy error req self =
     (if length (errorListeners req) > 1 then (Inr (), req, self)
      else (case emit (Emit_error error) self of (r, self') \<Rightarrow> (r, req, self')))"
| "runErrorListener (Caller f) error req self = (Inr (), req, self)"
| "runErrorListener (CallerOnce f) error req self =
     (Inr (), remove_error (CallerOnce f) req, self)"

fun runErrorListeners ::
  "listener list \<Rightarrow> jsval \<Rightarrow> request \<Rightarrow> client \<Rightarrow> (jserror + unit) \<times> request \<times> client" where
  "runErrorListeners [] error req self = (Inr (), req, self)"
| "runErrorListeners (l # ls) error req self =
     (case runErrorListener l error req self of
        (Inl e, req', self') \<Rightarrow> (Inl e, req', self')
      | (Inr u, req', self') \<Rightarrow> runErrorListeners ls error req' self')"

definition emitError :: "request \<Rightarrow> jsval \<Rightarrow> client \<Rightarrow> (jserror + unit) \<times> request \<times> client" where
  "emitError req error self =
     (if errorListeners req = [] then (Inl (Unhandled error), req, self)
      else runErrorListeners (errorListeners req) error req self)"


text \<open>The listeners of the caller's, and those of them that stay on the request when
  they are called.\<close>

fun isCaller :: "listener \<Rightarrow> bool" where
  "isCaller (Caller f) = True"
| "isCaller (CallerOnce f) = True"
| "isCaller l = False"

fun persistent :: "listener \<Rightarrow> bool" where
  "persistent (CallerOnce f) = False"
| "persistent l = True"


section \<open>Clients the program can produce\<close>

text \<open>
  The states a client goes through: it is constructed, the caller registers listeners
  for its \<^verbatim>\<open>error\<close> event and calls its methods with any arguments, ticks run, and
  responses and transport errors arrive. A response or an error
  is not tied here to a request that was sent, so these are at least the states of the
  program's runs.
\<close>

inductive reachable :: "client \<Rightarrow> bool" where
  constructed: "reachable Client"
| called_logIn: "reachable c \<Longrightarrow> reachable (snd (logIn c options))"
| called_logOut: "reachable c \<Longrightarrow> reachable (snd (logOut c options))"
| called_getJSON: "reachable c \<Longrightarrow> reachable (snd (getJSON c arguments))"
| called_putJSON: "reachable c \<Longrightarrow> reachable (snd (putJSON c arguments))"
| called_postJSON: "reachable c \<Longrightarrow> reachable (snd (postJSON c arguments))"
| called_deleteJSON: "reachable c \<Longrightarrow> reachable (snd (deleteJSON c arguments))"
| tick: "reachable c \<Longrightarrow> reachable (snd (runNextTick c))"
| logIn_responded: "reachable c \<Longrightarrow> reachable (snd (logIn_response c response))"
| logOut_responded: "reachable c \<Longrightarrow> reachable (snd (logOut_response c response))"
| request_failed: "reachable c \<Longrightarrow> reachable (snd (snd (emitError req error c)))"
| listening: "reachable c \<Longrightarrow> reachable (client_on_error c)"

text \<open>The two shapes \<^verbatim>\<open>logIn\<close> gives \<^verbatim>\<open>connectionOptions\<close>: a host and a port, or the
  fixed socket path.\<close>

definition loginTarget :: "obj \<Rightarrow> bool" where
  "loginTarget co \<longleftrightarrow>
     (\<exists>h p. co = [(''host'', h), (''port'', p)]) \<or> co = [(''socketPath'', JStr unixSockName)]"

text \<open>The specification's words for the option normalizer: fields are filled from
  arguments in order, as far as both the names and the arguments reach.\<close>

definition fill :: "string list \<Rightarrow> jsval list \<Rightarrow> obj \<Rightarrow> obj" where
  "fill names vals r = fold (\<lambda>p. setOwn (fst p) (snd p)) (zip names vals) r"


section \<open>Properties of objects and strings\<close>

lemma getOwn_setOwn: "getOwn (setOwn k v ps) k' = (if k' = k then v else getOwn ps k')"
  by (induction ps) (auto simp: getOwn_def)

lemma setOwn_fresh: "k \<notin> fst ` set ps \<Longrightarrow> setOwn k v ps = ps @ [(k, v)]"
  by (induction ps) auto

lemma fold_setOwn_distinct:
  "distinct (map fst (qs @ ps)) \<Longrightarrow> fold (\<lambda>p. setOwn (fst p) (snd p)) ps qs = qs @ ps"
proof (induction ps arbitrary: qs)
  case Nil
  then show ?case by simp
next
  case (Cons p ps)
  have fresh: "fst p \<notin> fst ` set qs" using Cons.prems by auto
  have "distinct (map fst ((qs @ [p]) @ ps))" using Cons.prems by simp
  from Cons.IH [OF this] show ?case
    by (simp add: setOwn_fresh [OF fresh])
qed

lemma getOwn_copyProps:
  "getOwn (copyProps src names r) k =
     (if k \<in> set names then getOwn (props src) k else getOwn r k)"
  unfolding copyProps_def by (induction names arbitrary: r) (auto simp: getOwn_setOwn)

text \<open>What \<^verbatim>\<open>mergeOptions\<close> returns has the second object's value under every key of
  the second object, and the first object's value under every other key.\<close>

lemma mergeOptions_overrides:
  assumes "mergeOptions (Some obj1) (Some obj2) = Inr obj3"
  shows "getOwn obj3 k = (if k \<in> fst ` set obj2 then getOwn obj2 k else getOwn obj1 k)"
proof -
  have "getOwn obj1 k = JUndefined" if "k \<notin> fst ` set obj1"
    using that map_of_eq_None_iff [of obj1 k] by (simp add: getOwn_def)
  note u = this
  have m: "obj3 = copyProps (Some obj2) (map fst obj2) (copyProps (Some obj1) (map fst obj1) [])"
    using assms by (simp add: mergeOptions_def getOwnPropertyNames_def)
  have e: "getOwn [] k = JUndefined" by (simp add: getOwn_def)
  show ?thesis unfolding m by (simp add: getOwn_copyProps props_def e u)
qed





lemma getProp_obj: "getProp (JObj ps) k = Inr (getOwn ps k)"
  by (simp add: getProp_def)


lemma indexOf_from_sublist: "indexOf_from i s pat \<noteq> - 1 \<longleftrightarrow> sublist pat s"
  by (induction s arbitrary: i) (auto simp: sublist_Cons_right)

lemma indexOf_sublist: "indexOf s pat \<noteq> - 1 \<longleftrightarrow> sublist pat s"
  by (simp add: indexOf_def indexOf_from_sublist)

lemma foldl_append_concat: "foldl (\<lambda>body chunk. body @ chunk) acc cs = acc @ concat cs"
  by (induction cs arbitrary: acc) simp_all

lemma split_from_first:
  assumes "sep \<noteq> []"
  shows "\<exists>x more. split_from sep cur s = (cur @ x) # more \<and>
           ((\<not> sublist sep s \<and> x = s) \<or>
            (\<exists>rest. s = x @ sep @ rest \<and> (\<forall>i<length x. \<not> prefix sep (drop i s))))"
proof (induction s arbitrary: cur)
  case Nil
  show ?case using assms by simp
next
  case (Cons c cs)
  show ?case
  proof (cases "prefix sep (c # cs)")
    case True
    then obtain rest where r: "c # cs = [] @ sep @ rest" by (auto simp: prefix_def)
    have "split_from sep cur (c # cs) = (cur @ []) # split_from sep [] (drop (length sep) (c # cs))"
      using True assms by simp
    with r show ?thesis
      by (intro exI [of _ "[]"] exI [of _ "split_from sep [] (drop (length sep) (c # cs))"])
         (simp del: split_from.simps)
  next
    case False
    from Cons [of "cur @ [c]"] obtain x more where
      sp: "split_from sep (cur @ [c]) cs = ((cur @ [c]) @ x) # more" and
      alt: "(\<not> sublist sep cs \<and> x = cs) \<or>
            (\<exists>rest. cs = x @ sep @ rest \<and> (\<forall>i<length x. \<not> prefix sep (drop i cs)))"
      by blast
    from alt show ?thesis
    proof
      assume "\<not> sublist sep cs \<and> x = cs"
      with False sp show ?thesis
        by (intro exI [of _ "c # x"] exI [of _ more]) (simp add: sublist_Cons_right)
    next
      assume "\<exists>rest. cs = x @ sep @ rest \<and> (\<forall>i<length x. \<not> prefix sep (drop i cs))"
      then obtain rest where r: "cs = x @ sep @ rest"
        and f: "\<forall>i<length x. \<not> prefix sep (drop i cs)" by blast
      have "\<forall>i<length (c # x). \<not> prefix sep (drop i (c # cs))"
      proof (intro allI impI)
        fix i assume "i < length (c # x)"
        then show "\<not> prefix sep (drop i (c # cs))"
          using False f by (cases i) auto
      qed
      moreover have "c # cs = (c # x) @ sep @ rest" using r by simp
      ultimately show ?thesis using False sp
        by (intro exI [of _ "c # x"] exI [of _ more]) auto
    qed
  qed
qed


lemma split_first:
  assumes "sep \<noteq> []"
  shows "\<exists>x more. split h sep = x # more \<and>
           ((\<not> sublist sep h \<and> x = h) \<or>
            (\<exists>rest. h = x @ sep @ rest \<and> (\<forall>i<length x. \<not> prefix sep (drop i h))))"
  using split_from_first [OF assms, of "[]" h] assms by (simp add: split_def)


section \<open>The option normalizer\<close>

lemma zip_index_map:
  "n \<le> length names \<Longrightarrow> off + n \<le> length args \<Longrightarrow>
   map (\<lambda>i. (names ! i, arg args (off + i))) [0..<n] = zip (take n names) (drop off args)"
  by (rule nth_equalityI) (auto simp: arg_def)

lemma assignArgs_fill:
  assumes "n \<le> length names" and "off + n \<le> length args"
  shows "assignArgs names args off n r = fill (take n names) (drop off args) r"
proof -
  have "assignArgs names args off n r =
        fold (\<lambda>p. setOwn (fst p) (snd p)) (map (\<lambda>i. (names ! i, arg args (off + i))) [0..<n]) r"
    by (simp add: assignArgs_def fold_map comp_def)
  then show ?thesis
    by (simp add: fill_def zip_index_map [OF assms])
qed

lemma zip_take_min: "zip (take (min (length ys) (length xs)) xs) ys = zip xs ys"
  by (rule nth_equalityI) auto

lemma testRequiredOptions_find:
  assumes "a \<noteq> JUndefined" and "a \<noteq> JNull"
  shows "testRequiredOptions a req =
           map_option missingArgError (find (\<lambda>k. \<not> truthy (optProp a k)) req)"
proof -
  have ok: "getProp a k = Inr (optProp a k)" for k
    using assms by (cases a) (simp_all add: getProp_def optProp_def)
  show ?thesis by (induction req) (simp_all add: ok)
qed

lemma parseOptions_no_arguments:
  "parseOptions [] req opt = (if req = [] then Inr [] else Inl (moreArgumentsError req))"
  by (simp add: parseOptions_def)

lemma parseOptions_positional:
  "parseOptions (JStr s # rest) req opt =
     (if length (JStr s # rest) < length req then Inl (moreArgumentsError req)
      else Inr (fill opt (drop (length req) (JStr s # rest)) (fill req (JStr s # rest) [])))"
proof (cases "length (JStr s # rest) < length req")
  case True
  then show ?thesis by (simp add: parseOptions_def arg_def isString_def)
next
  case False
  let ?args = "JStr s # rest"
  have le: "length req \<le> length ?args" using False by simp
  have r: "assignArgs req ?args 0 (length req) [] = fill req ?args []"
    using assignArgs_fill [of "length req" req 0 ?args "[]"] le by simp
  have o: "assignArgs opt ?args (length req) (min (length ?args - length req) (length opt)) t
           = fill opt (drop (length req) ?args) t" for t
  proof -
    have "assignArgs opt ?args (length req) (min (length ?args - length req) (length opt)) t
          = fill (take (min (length ?args - length req) (length opt)) opt) (drop (length req) ?args) t"
      using le by (intro assignArgs_fill) auto
    also have "\<dots> = fill opt (drop (length req) ?args) t"
      using zip_take_min [of "drop (length req) ?args" opt] by (simp add: fill_def)
    finally show ?thesis .
  qed
  show ?thesis using False r o
    by (simp add: parseOptions_def arg_def isString_def Let_def del: list.size)
qed

lemma parseOptions_object:
  assumes "\<not> isString a" and "a \<noteq> JUndefined" and "a \<noteq> JNull"
  shows "parseOptions (a # rest) req opt =
     (case find (\<lambda>k. \<not> truthy (optProp a k)) req of
        Some k \<Rightarrow> Inl (missingArgError k)
      | None \<Rightarrow> Inr (fill opt rest (fold (\<lambda>p. setOwn (fst p) (snd p)) (enumerable a) [])))"
proof -
  have o: "assignArgs opt (a # rest) 1 (min (length rest) (length opt)) t = fill opt rest t" for t
  proof -
    have "assignArgs opt (a # rest) 1 (min (length rest) (length opt)) t
          = fill (take (min (length rest) (length opt)) opt) (drop 1 (a # rest)) t"
      by (intro assignArgs_fill) auto
    also have "\<dots> = fill opt rest t"
      using zip_take_min [of rest opt] by (simp add: fill_def)
    finally show ?thesis .
  qed
  show ?thesis using assms o
    by (simp add: parseOptions_def arg_def testRequiredOptions_find Let_def split: option.splits)
qed


section \<open>Logging in\<close>

text \<open>
  Two calls the claim C3 covers as it is worded. The options of the first contain a
  username, the empty string, and no password: no \<^verbatim>\<open>error\<close> is emitted and the client
  logs in over the socket with the default credentials. The second is made on a client
  nobody listens to for \<^verbatim>\<open>error\<close>: the call does not return, the emit throws.
\<close>

theorem logIn_half_credentials_counterexample:
  "map_of [(''username'', JStr [])] ''username'' = Some (JStr []) \<and>
   map_of [(''username'', JStr [])] ''password'' = None \<and>
   logIn (client_on_error Client) (JObj [(''username'', JStr [])]) =
     (Inr (), (client_on_error Client)
        \<lparr>connectionOptions := Some [(''socketPath'', JStr ''/tmp/rest_server/http.sock'')],
         nextTick := [Tick_login]\<rparr>) \<and>
   logIn Client (JObj [(''username'', JStr ''bob'')]) =
     (Inl (Unhandled (JObj [(''message'',
        JStr ''Client login options contained the username  but no password.'')])), Client)"
  by (simp add: logIn_def js_or_def optProp_def getProp_def getOwn_def Client_def
      client_on_error_def emit_def props_def unixSockName_def)

text \<open>
  Claim C3, amended. A call to \<^verbatim>\<open>logIn\<close> whose options hold a truthy username and no
  truthy password, or a truthy password and no truthy username, sends no request and
  leaves \<^verbatim>\<open>loggedIn\<close>, \<^verbatim>\<open>sid\<close> and the connection target as they were. It emits an
  \<^verbatim>\<open>error\<close> event whose message says which one is missing: on a client with a listener
  for \<^verbatim>\<open>error\<close> the event goes out and the call returns, on a client without one the
  emit throws and the call does not return.
\<close>

theorem logIn_rejects_half_credentials:
  assumes "(truthy (optProp (js_or options (JObj [])) ''username'') \<and>
            \<not> truthy (optProp (js_or options (JObj [])) ''password'')) \<or>
           (\<not> truthy (optProp (js_or options (JObj [])) ''username'') \<and>
            truthy (optProp (js_or options (JObj [])) ''password''))"
  shows "\<exists>msg. logIn c options =
             (if errorHandlers c = 0
              then (Inl (Unhandled (JObj [(''message'', JStr msg)])), c)
              else (Inr (), c\<lparr>emitted := emitted c @ [Emit_error (JObj [(''message'', JStr msg)])]\<rparr>)) \<and>
           msg = (if truthy (optProp (js_or options (JObj [])) ''username'')
                  then ''Client login options contained the username  but no password.''
                  else ''Client login options contained the password  but no username.'') \<and>
           sent (snd (logIn c options)) = sent c \<and>
           loggedIn (snd (logIn c options)) = loggedIn c \<and>
           sid (snd (logIn c options)) = sid c \<and>
           connectionOptions (snd (logIn c options)) = connectionOptions c \<and>
           nextTick (snd (logIn c options)) = nextTick c"
  using assms by (auto simp: logIn_def Let_def emit_def deliver_def)

theorem logIn_rejects_half_credentials_witness:
  "logIn (client_on_error Client) (JObj [(''username'', JStr ''bob'')]) =
     (Inr (), (client_on_error Client)\<lparr>emitted := [Emit_error (JObj [(''message'',
        JStr ''Client login options contained the username  but no password.'')])]\<rparr>) \<and>
   logIn (client_on_error Client)
       (JObj [(''password'', JStr ''secret''), (''host'', JStr ''10.0.0.1'')]) =
     (Inr (), (client_on_error Client)\<lparr>emitted := [Emit_error (JObj [(''message'',
        JStr ''Client login options contained the password  but no username.'')])]\<rparr>)"
  using logIn_rejects_half_credentials
      [of "JObj [(''username'', JStr ''bob'')]" "client_on_error Client"]
    logIn_rejects_half_credentials
      [of "JObj [(''password'', JStr ''secret''), (''host'', JStr ''10.0.0.1'')]"
          "client_on_error Client"]
  by (simp add: js_or_def optProp_def getProp_def getOwn_def Client_def client_on_error_def)

text \<open>
  A call with a username and no password has neither host nor port, and yet it never
  reaches the socket branch: the credentials are checked first.
\<close>

theorem logIn_socket_counterexample:
  "optProp (js_or (JObj [(''username'', JStr ''bob'')]) (JObj [])) ''host'' = JUndefined \<and>
   optProp (js_or (JObj [(''username'', JStr ''bob'')]) (JObj [])) ''port'' = JUndefined \<and>
   logIn (client_on_error Client) (JObj [(''username'', JStr ''bob'')]) =
     (Inr (), (client_on_error Client)\<lparr>emitted := [Emit_error (JObj [(''message'',
        JStr ''Client login options contained the username  but no password.'')])]\<rparr>) \<and>
   connectionOptions (snd (logIn (client_on_error Client) (JObj [(''username'', JStr ''bob'')])))
     = None \<and>
   nextTick (snd (logIn (client_on_error Client) (JObj [(''username'', JStr ''bob'')]))) = [] \<and>
   runNextTick (snd (logIn (client_on_error Client) (JObj [(''username'', JStr ''bob'')]))) =
     (Inr (), snd (logIn (client_on_error Client) (JObj [(''username'', JStr ''bob'')]))) \<and>
   loggedIn (snd (logIn (client_on_error Client) (JObj [(''username'', JStr ''bob'')]))) = False"
  by (simp add: logIn_def js_or_def optProp_def getProp_def getOwn_def Client_def
      client_on_error_def emit_def deliver_def runNextTick_def)

text \<open>
  Claim C4, amended. A call to \<^verbatim>\<open>logIn\<close> whose options hold neither a truthy host nor a
  truthy port, and whose username and password are both truthy or both falsy (missing, or
  a falsy value such as the empty string), sends no request and emits nothing: it sets
  \<^verbatim>\<open>connectionOptions\<close> to the fixed socket path and queues one callback for the next
  tick, which sets \<^verbatim>\<open>loggedIn\<close> and emits \<^verbatim>\<open>login\<close>.
\<close>

theorem logIn_socket:
  assumes "\<not> truthy (optProp (js_or options (JObj [])) ''host'')"
    and "\<not> truthy (optProp (js_or options (JObj [])) ''port'')"
    and "truthy (optProp (js_or options (JObj [])) ''username'') \<longleftrightarrow>
         truthy (optProp (js_or options (JObj [])) ''password'')"
  shows "logIn c options =
           (Inr (), c\<lparr>connectionOptions := Some [(''socketPath'', JStr ''/tmp/rest_server/http.sock'')],
                       nextTick := nextTick c @ [Tick_login]\<rparr>) \<and>
         sent (snd (logIn c options)) = sent c \<and>
         emitted (snd (logIn c options)) = emitted c \<and>
         loggedIn (snd (logIn c options)) = loggedIn c \<and>
         (\<forall>s. runTick Tick_login s =
                (Inr (), s\<lparr>loggedIn := True, emitted := emitted s @ [Emit_login]\<rparr>)) \<and>
         (nextTick c = [] \<longrightarrow>
            runNextTick (snd (logIn c options)) =
              (Inr (), c\<lparr>loggedIn := True,
                 connectionOptions := Some [(''socketPath'', JStr ''/tmp/rest_server/http.sock'')],
                 emitted := emitted c @ [Emit_login]\<rparr>))"
  using assms
  by (auto simp: logIn_def Let_def emit_def deliver_def props_def getOwn_def unixSockName_def
      runNextTick_def)

theorem logIn_socket_witness:
  "logIn Client JUndefined =
     (Inr (), Client\<lparr>connectionOptions := Some [(''socketPath'', JStr ''/tmp/rest_server/http.sock'')],
                     nextTick := [Tick_login]\<rparr>) \<and>
   runNextTick (snd (logIn Client JUndefined)) =
     (Inr (), Client\<lparr>loggedIn := True,
            connectionOptions := Some [(''socketPath'', JStr ''/tmp/rest_server/http.sock'')],
            emitted := [Emit_login]\<rparr>) \<and>
   logIn Client (JObj [(''username'', JStr []), (''password'', JNum 0)]) =
     (Inr (), Client\<lparr>connectionOptions := Some [(''socketPath'', JStr ''/tmp/rest_server/http.sock'')],
                     nextTick := [Tick_login]\<rparr>)"
  using logIn_socket [of JUndefined Client]
    logIn_socket [of "JObj [(''username'', JStr []), (''password'', JNum 0)]" Client]
  by (auto simp: js_or_def optProp_def getProp_def getOwn_def Client_def)


section \<open>The response to a login\<close>

lemma checkBody_failure:
  "sublist ''login'' body \<Longrightarrow>
   checkBody c r body = (Inr (), c\<lparr>emitted := emitted c @ [Emit_loginFailure r body]\<rparr>)"
  by (simp add: checkBody_def indexOf_sublist emit_def deliver_def)

lemma checkBody_success:
  assumes "\<not> sublist ''login'' body"
    and "getOwn (headers r) ''set-cookie'' = JStr h \<or>
         (\<exists>more. getOwn (headers r) ''set-cookie'' = JArr (JStr h # more))"
  shows "\<exists>x. checkBody c r body =
               (Inr (), c\<lparr>sid := JStr x, loggedIn := True, emitted := emitted c @ [Emit_login]\<rparr>) \<and>
             ((\<not> sublist ''; '' h \<and> x = h) \<or>
              (\<exists>rest. h = x @ ''; '' @ rest \<and> (\<forall>i<length x. \<not> prefix ''; '' (drop i h))))"
proof -
  from split_first [of "''; ''" h] obtain x more where
    sp: "split h ''; '' = x # more" and
    first: "(\<not> sublist ''; '' h \<and> x = h) \<or>
            (\<exists>rest. h = x @ ''; '' @ rest \<and> (\<forall>i<length x. \<not> prefix ''; '' (drop i h)))"
    by auto
  have "checkBody c r body =
          (Inr (), c\<lparr>sid := JStr x, loggedIn := True, emitted := emitted c @ [Emit_login]\<rparr>)"
    using assms sp by (auto simp: checkBody_def indexOf_sublist emit_def deliver_def arg_def)
  with first show ?thesis by blast
qed

text \<open>
  A response whose body has no \<^verbatim>\<open>login\<close> in it and that carries no \<^verbatim>\<open>Set-Cookie\<close>
  header: \<^verbatim>\<open>setCookieHdr\<close> is undefined, the call of its \<^verbatim>\<open>split\<close> throws, and the
  client is left as it was.
\<close>

theorem logIn_response_counterexample:
  "indexOf ''OK'' ''login'' = - 1 \<and>
   logIn_response Client \<lparr>statusCode = 200, headers = [], chunks = [''OK'']\<rparr> =
     (Inl (TypeError ''setCookieHdr.split''), Client)"
  by (simp add: logIn_response_def checkBody_def indexOf_def getOwn_def)

text \<open>
  Claim C1, amended. When the whole body of the response to the login POST contains
  \<^verbatim>\<open>login\<close>, the client emits \<^verbatim>\<open>loginFailure\<close> with the response and that body, and
  nothing else changes. When it does not, and the response carries a \<^verbatim>\<open>Set-Cookie\<close>
  header (a string, or an array that starts with one), \<^verbatim>\<open>sid\<close> becomes the first header
  value up to its first \<^verbatim>\<open>; \<close> (all of it when there is none), \<^verbatim>\<open>loggedIn\<close> becomes
  true and \<^verbatim>\<open>login\<close> is emitted.
\<close>

theorem logIn_response_checks_body:
  "(sublist ''login'' (concat (chunks r)) \<longrightarrow>
      logIn_response c r =
        (Inr (), c\<lparr>emitted := emitted c @ [Emit_loginFailure r (concat (chunks r))]\<rparr>)) \<and>
   (\<not> sublist ''login'' (concat (chunks r)) \<and>
    (getOwn (headers r) ''set-cookie'' = JStr h \<or>
     (\<exists>more. getOwn (headers r) ''set-cookie'' = JArr (JStr h # more))) \<longrightarrow>
      (\<exists>x. logIn_response c r =
              (Inr (), c\<lparr>sid := JStr x, loggedIn := True, emitted := emitted c @ [Emit_login]\<rparr>) \<and>
            ((\<not> sublist ''; '' h \<and> x = h) \<or>
             (\<exists>rest. h = x @ ''; '' @ rest \<and> (\<forall>i<length x. \<not> prefix ''; '' (drop i h))))))"
  using checkBody_failure [of "concat (chunks r)" c r]
        checkBody_success [of "concat (chunks r)" r h c]
  by (simp add: logIn_response_def foldl_append_concat)

theorem logIn_response_checks_body_witness:
  "logIn_response Client
     \<lparr>statusCode = 200, headers = [], chunks = [''<html>log'', ''in</html>'']\<rparr> =
     (Inr (), Client\<lparr>emitted := [Emit_loginFailure
        \<lparr>statusCode = 200, headers = [], chunks = [''<html>log'', ''in</html>'']\<rparr>
        ''<html>login</html>'']\<rparr>) \<and>
   logIn_response Client
     \<lparr>statusCode = 200, headers = [(''set-cookie'', JArr [JStr ''sid=abc123; Path=/''])],
      chunks = [''ok'']\<rparr> =
     (Inr (), Client\<lparr>sid := JStr ''sid=abc123'', loggedIn := True, emitted := [Emit_login]\<rparr>)"
  using logIn_response_checks_body [where c = Client and
      r = "\<lparr>statusCode = 200, headers = [], chunks = [''<html>log'', ''in</html>'']\<rparr>"]
    logIn_response_checks_body [where c = Client and h = "''sid=abc123; Path=/''" and
      r = "\<lparr>statusCode = 200, headers = [(''set-cookie'', JArr [JStr ''sid=abc123; Path=/''])],
        chunks = [''ok'']\<rparr>"]
  by (simp add: logIn_response_def checkBody_def indexOf_def split_def getOwn_def arg_def
      emit_def deliver_def Client_def)

lemma logIn_response_without_cookie:
  "\<not> sublist ''login'' (concat (chunks r)) \<Longrightarrow> map_of (headers r) ''set-cookie'' = None \<Longrightarrow>
   logIn_response c r = (Inl (TypeError ''setCookieHdr.split''), c)"
  by (simp add: logIn_response_def foldl_append_concat checkBody_def indexOf_sublist getOwn_def)


section \<open>What every reachable client satisfies\<close>

lemma runErrorListeners_fields:
  "apiPrefix (snd (snd (runErrorListeners ls err req c))) = apiPrefix c \<and>
   connectionOptions (snd (snd (runErrorListeners ls err req c))) = connectionOptions c \<and>
   sid (snd (snd (runErrorListeners ls err req c))) = sid c \<and>
   loggedIn (snd (snd (runErrorListeners ls err req c))) = loggedIn c \<and>
   sent (snd (snd (runErrorListeners ls err req c))) = sent c \<and>
   nextTick (snd (snd (runErrorListeners ls err req c))) = nextTick c \<and>
   errorHandlers (snd (snd (runErrorListeners ls err req c))) = errorHandlers c"
proof (induction ls arbitrary: req c)
  case Nil
  show ?case by simp
next
  case (Cons l ls)
  show ?case
    by (cases l) (simp_all add: Cons.IH emit_def deliver_def split: prod.splits sum.splits)
qed

lemma emitError_fields:
  "apiPrefix (snd (snd (emitError req err c))) = apiPrefix c \<and>
   connectionOptions (snd (snd (emitError req err c))) = connectionOptions c \<and>
   sid (snd (snd (emitError req err c))) = sid c \<and>
   loggedIn (snd (snd (emitError req err c))) = loggedIn c \<and>
   sent (snd (snd (emitError req err c))) = sent c \<and>
   nextTick (snd (snd (emitError req err c))) = nextTick c"
  using runErrorListeners_fields [of "errorListeners req" err req c]
  by (simp add: emitError_def)

lemma verbs_keep_fields:
  "apiPrefix (snd (getJSON c a)) = apiPrefix c \<and> connectionOptions (snd (getJSON c a)) = connectionOptions c \<and> sid (snd (getJSON c a)) = sid c"
  "apiPrefix (snd (putJSON c a)) = apiPrefix c \<and> connectionOptions (snd (putJSON c a)) = connectionOptions c \<and> sid (snd (putJSON c a)) = sid c"
  "apiPrefix (snd (postJSON c a)) = apiPrefix c \<and> connectionOptions (snd (postJSON c a)) = connectionOptions c \<and> sid (snd (postJSON c a)) = sid c"
  "apiPrefix (snd (deleteJSON c a)) = apiPrefix c \<and> connectionOptions (snd (deleteJSON c a)) = connectionOptions c \<and> sid (snd (deleteJSON c a)) = sid c"
  "apiPrefix (snd (logOut c opts)) = apiPrefix c \<and> connectionOptions (snd (logOut c opts)) = connectionOptions c \<and> sid (snd (logOut c opts)) = sid c"
  by (simp_all add: getJSON_def putJSON_def postJSON_def deleteJSON_def logOut_def Let_def
      split: sum.splits)

lemma logIn_keeps_fields:
  "apiPrefix (snd (logIn c opts)) = apiPrefix c \<and> sid (snd (logIn c opts)) = sid c \<and>
   loggedIn (snd (logIn c opts)) = loggedIn c"
  by (simp add: logIn_def Let_def emit_def deliver_def split: sum.splits)

lemma logIn_target:
  "connectionOptions (snd (logIn c opts)) = connectionOptions c \<or>
   (\<exists>co. connectionOptions (snd (logIn c opts)) = Some co \<and> loginTarget co)"
  by (simp add: logIn_def Let_def emit_def deliver_def loginTarget_def props_def getOwn_def split: sum.splits)

lemma responses_keep_fields:
  "apiPrefix (snd (logIn_response c r)) = apiPrefix c \<and>
   connectionOptions (snd (logIn_response c r)) = connectionOptions c"
  "apiPrefix (snd (logOut_response c r)) = apiPrefix c \<and>
   connectionOptions (snd (logOut_response c r)) = connectionOptions c \<and>
   sid (snd (logOut_response c r)) = sid c"
  "apiPrefix (snd (runNextTick c)) = apiPrefix c \<and>
   connectionOptions (snd (runNextTick c)) = connectionOptions c \<and>
   sid (snd (runNextTick c)) = sid c"
  "apiPrefix (client_on_error c) = apiPrefix c \<and>
   connectionOptions (client_on_error c) = connectionOptions c \<and>
   sid (client_on_error c) = sid c"
  subgoal by (simp add: logIn_response_def checkBody_def Let_def emit_def deliver_def
      split: jsval.splits)
  subgoal by (simp add: logOut_response_def emit_def deliver_def)
  subgoal by (cases "nextTick c"; cases "hd (nextTick c)")
      (simp_all add: runNextTick_def emit_def deliver_def)
  subgoal by (simp add: client_on_error_def)
  done

lemma logIn_response_sid:
  "sid (snd (logIn_response c r)) = sid c \<or> sid (snd (logIn_response c r)) = JUndefined \<or>
   isString (sid (snd (logIn_response c r)))"
  by (simp add: logIn_response_def checkBody_def Let_def emit_def deliver_def isString_def
      split: jsval.splits list.splits)

lemma reachable_invariant:
  assumes "reachable c"
  shows "apiPrefix c = ''/lrs/api/v1.0'' \<and>
         (connectionOptions c = None \<or> (\<exists>co. connectionOptions c = Some co \<and> loginTarget co)) \<and>
         (sid c = JUndefined \<or> isString (sid c))"
  using assms
proof (induction rule: reachable.induct)
  case constructed
  show ?case by (simp add: Client_def)
next
  case (called_logIn c options)
  then show ?case using logIn_keeps_fields [of c options] logIn_target [of c options] by auto
next
  case (logIn_responded c response)
  then show ?case
    using responses_keep_fields(1) [of c response] logIn_response_sid [of c response] by auto
qed (simp_all add: verbs_keep_fields responses_keep_fields emitError_fields)

lemma mergeOptions_undefined:
  "mergeOptions (Some ro) None = Inl (TypeError ''Object.getOwnPropertyNames of undefined'')"
  by (simp add: mergeOptions_def getOwnPropertyNames_def)



section \<open>Logging in over host and port\<close>

lemma mergeOptions_target:
  "mergeOptions (Some [(''path'', a), (''method'', m), (''agent'', g), (''headers'', hs)])
                (Some [(''host'', h), (''port'', p)]) =
     Inr [(''path'', a), (''method'', m), (''agent'', g), (''headers'', hs), (''host'', h), (''port'', p)]"
  by (simp add: mergeOptions_def getOwnPropertyNames_def copyProps_def props_def getOwn_def)

lemma truthy_js_or: "truthy d \<Longrightarrow> truthy (js_or x d)"
  by (simp add: js_or_def)

lemma logIn_posts:
  assumes creds: "truthy (optProp (js_or options (JObj [])) ''username'') \<longleftrightarrow>
                  truthy (optProp (js_or options (JObj [])) ''password'')"
    and target: "truthy (optProp (js_or options (JObj [])) ''host'') \<or>
                 truthy (optProp (js_or options (JObj [])) ''port'')"
    and data: "data = ''username='' @
                 js_toString (js_or (optProp (js_or options (JObj [])) ''username'') (JStr ''testlab'')) @
                 ''&password='' @
                 js_toString (js_or (optProp (js_or options (JObj [])) ''password'') (JStr ''changeme''))"
    and h: "h = js_or (optProp (js_or options (JObj [])) ''host'') (JStr ''127.0.0.1'')"
    and p: "p = js_or (optProp (js_or options (JObj [])) ''port'') (JNum 3001)"
    and path: "path = js_or (optProp (js_or options (JObj [])) ''path'') (JStr ''/login'')"
  shows "logIn c options =
           (Inr (), c\<lparr>connectionOptions := Some [(''host'', h), (''port'', p)],
              sent := sent c @
                [\<lparr> requestOptions =
                     [(''path'', path), (''method'', JStr ''POST''), (''agent'', JBool False),
                      (''headers'', JObj [(''Accept'', JStr ''*/*''),
                          (''Content-Length'', JNum (int (length data))),
                          (''Content-Type'', JStr ''application/x-www-form-urlencoded'')]),
                      (''host'', h), (''port'', p)],
                    callback = logIn_callback,
                    reqHeaders = [(''Accept'', JStr ''*/*''),
                          (''Content-Length'', JNum (int (length data))),
                          (''Content-Type'', JStr ''application/x-www-form-urlencoded''),
                          (''Host'', JStr (js_toString h @ '':'' @ js_toString p))],
                    errorListeners = [LoginRequestFailure], written = [JStr data],
                    ended = True \<rparr>]\<rparr>)"
proof -
  have tp: "truthy path" unfolding path by (rule truthy_js_or) simp
  have len: "length data \<noteq> 0" unfolding data by simp
  have req: "getPostReq [(''path'', path), (''contentLength'', JNum (int (length data))),
           (''contentType'', JStr ''application/x-www-form-urlencoded''),
           (''host'', h), (''port'', p), (''callback'', logIn_callback)]
           (Some [(''host'', h), (''port'', p)]) =
         Inr \<lparr> requestOptions =
                 [(''path'', path), (''method'', JStr ''POST''), (''agent'', JBool False),
                  (''headers'', JObj [(''Accept'', JStr ''*/*''),
                      (''Content-Length'', JNum (int (length data))),
                      (''Content-Type'', JStr ''application/x-www-form-urlencoded'')]),
                  (''host'', h), (''port'', p)],
                callback = logIn_callback,
                reqHeaders = [(''Accept'', JStr ''*/*''),
                      (''Content-Length'', JNum (int (length data))),
                      (''Content-Type'', JStr ''application/x-www-form-urlencoded''),
                      (''Host'', JStr (js_toString h @ '':'' @ js_toString p))],
                errorListeners = [], written = [], ended = False \<rparr>"
    using tp len
    by (simp add: getPostReq_def getProp_obj getOwn_def finishReq_def mergeOptions_target
        http_request_def removeHeader_def setHeader_def)
  show ?thesis
    unfolding logIn_def Let_def data [symmetric] h [symmetric] p [symmetric] path [symmetric]
    using creds target
    by (simp add: props_def getOwn_def req on_error_def req_write_def req_end_def)
qed


text \<open>
  Claim C10. A call to \<^verbatim>\<open>logIn\<close> with a host or a port and with username and password
  both falsy (missing, or empty strings) raises no validation error and posts exactly the
  form body \<^verbatim>\<open>username=testlab&password=changeme\<close>; a missing host becomes
  \<^verbatim>\<open>127.0.0.1\<close> and a missing port \<open>3001\<close>, in the request and in the connection
  target the client keeps.
\<close>

theorem logIn_default_credentials:
  assumes "\<not> truthy (optProp (js_or options (JObj [])) ''username'')"
    and "\<not> truthy (optProp (js_or options (JObj [])) ''password'')"
    and "truthy (optProp (js_or options (JObj [])) ''host'') \<or>
         truthy (optProp (js_or options (JObj [])) ''port'')"
  shows "\<exists>req. logIn c options =
             (Inr (), c\<lparr>connectionOptions :=
                          Some [(''host'', js_or (optProp (js_or options (JObj [])) ''host'') (JStr ''127.0.0.1'')),
                                (''port'', js_or (optProp (js_or options (JObj [])) ''port'') (JNum 3001))],
                        sent := sent c @ [req]\<rparr>) \<and>
           written req = [JStr ''username=testlab&password=changeme''] \<and>
           ended req \<and>
           getOwn (requestOptions req) ''method'' = JStr ''POST'' \<and>
           getOwn (requestOptions req) ''host'' =
             (if truthy (optProp (js_or options (JObj [])) ''host'')
              then optProp (js_or options (JObj [])) ''host'' else JStr ''127.0.0.1'') \<and>
           getOwn (requestOptions req) ''port'' =
             (if truthy (optProp (js_or options (JObj [])) ''port'')
              then optProp (js_or options (JObj [])) ''port'' else JNum 3001) \<and>
           getOwn (reqHeaders req) ''Content-Length'' = JNum 34 \<and>
           getOwn (reqHeaders req) ''Content-Type'' = JStr ''application/x-www-form-urlencoded'' \<and>
           callback req = logIn_callback"
proof -
  have data: "''username=testlab&password=changeme'' = ''username='' @
                 js_toString (js_or (optProp (js_or options (JObj [])) ''username'') (JStr ''testlab'')) @
                 ''&password='' @
                 js_toString (js_or (optProp (js_or options (JObj [])) ''password'') (JStr ''changeme''))"
    using assms(1,2) by (simp add: js_or_def)
  have creds: "truthy (optProp (js_or options (JObj [])) ''username'') \<longleftrightarrow>
               truthy (optProp (js_or options (JObj [])) ''password'')"
    using assms(1,2) by simp
  note post = logIn_posts [OF creds assms(3) data refl refl refl, of c]
  show ?thesis
    unfolding post by (rule exI, intro conjI, rule refl) (simp_all add: getOwn_def js_or_def)
qed

theorem logIn_default_credentials_witness:
  "(\<exists>req. logIn Client (JObj [(''port'', JNum 8080)]) =
      (Inr (), Client\<lparr>connectionOptions := Some [(''host'', JStr ''127.0.0.1''), (''port'', JNum 8080)],
                      sent := [req]\<rparr>) \<and>
      written req = [JStr ''username=testlab&password=changeme''] \<and>
      getOwn (requestOptions req) ''host'' = JStr ''127.0.0.1'') \<and>
   (\<exists>req. logIn Client (JObj [(''username'', JStr []), (''password'', JStr []), (''host'', JStr ''10.0.0.1'')]) =
      (Inr (), Client\<lparr>connectionOptions := Some [(''host'', JStr ''10.0.0.1''), (''port'', JNum 3001)],
                      sent := [req]\<rparr>) \<and>
      written req = [JStr ''username=testlab&password=changeme''] \<and>
      getOwn (requestOptions req) ''port'' = JNum 3001)"
proof -
  have a: "optProp (js_or (JObj [(''port'', JNum 8080)]) (JObj [])) k =
           getOwn [(''port'', JNum 8080)] k" for k
    by (simp add: js_or_def optProp_def getProp_obj)
  have b: "optProp (js_or (JObj [(''username'', JStr []), (''password'', JStr []), (''host'', JStr ''10.0.0.1'')]) (JObj [])) k =
           getOwn [(''username'', JStr []), (''password'', JStr []), (''host'', JStr ''10.0.0.1'')] k" for k
    by (simp add: js_or_def optProp_def getProp_obj)
  from logIn_default_credentials [of "JObj [(''port'', JNum 8080)]" Client]
  have 1: "\<exists>req. logIn Client (JObj [(''port'', JNum 8080)]) =
      (Inr (), Client\<lparr>connectionOptions := Some [(''host'', JStr ''127.0.0.1''), (''port'', JNum 8080)],
                      sent := [req]\<rparr>) \<and>
      written req = [JStr ''username=testlab&password=changeme''] \<and>
      getOwn (requestOptions req) ''host'' = JStr ''127.0.0.1''"
    unfolding a by (simp add: getOwn_def js_or_def Client_def) blast
  from logIn_default_credentials [of "JObj [(''username'', JStr []), (''password'', JStr []), (''host'', JStr ''10.0.0.1'')]" Client]
  have 2: "\<exists>req. logIn Client (JObj [(''username'', JStr []), (''password'', JStr []), (''host'', JStr ''10.0.0.1'')]) =
      (Inr (), Client\<lparr>connectionOptions := Some [(''host'', JStr ''10.0.0.1''), (''port'', JNum 3001)],
                      sent := [req]\<rparr>) \<and>
      written req = [JStr ''username=testlab&password=changeme''] \<and>
      getOwn (requestOptions req) ''port'' = JNum 3001"
    unfolding b by (simp add: getOwn_def js_or_def Client_def) blast
  from 1 2 show ?thesis by (rule conjI)
qed


section \<open>The option normalizer's contract\<close>

text \<open>
  Claim C6 at an object that has every required key, one of them with the value \<open>0\<close>.
  No required key is absent from the object, and the claim has the call copy its
  properties; \<^verbatim>\<open>testRequiredOptions\<close> tests \<^verbatim>\<open>!options[opt]\<close>, takes the \<open>0\<close> for a
  missing value and the call throws, naming \<^verbatim>\<open>body\<close>. The positional form of the same
  call, which the program's comment presents as the other way to write it, accepts the
  \<open>0\<close>.
\<close>

theorem parseOptions_falsy_required_key:
  "map_of [(''path'', JStr ''/x''), (''body'', JNum 0)] ''path'' = Some (JStr ''/x'') \<and>
   map_of [(''path'', JStr ''/x''), (''body'', JNum 0)] ''body'' = Some (JNum 0) \<and>
   parseOptions [JObj [(''path'', JStr ''/x''), (''body'', JNum 0)]] [''path'', ''body''] [''callback'']
     = Inl (Error ''Missing required argument: body'') \<and>
   parseOptions [JStr ''/x'', JNum 0] [''path'', ''body''] [''callback'']
     = Inr [(''path'', JStr ''/x''), (''body'', JNum 0)]"
proof -
  have "parseOptions [JObj [(''path'', JStr ''/x''), (''body'', JNum 0)]] [''path'', ''body'']
          [''callback''] = Inl (Error ''Missing required argument: body'')"
    by (simp add: parseOptions_def arg_def isString_def getProp_obj getOwn_def
        missingArgError_def)
  moreover have "parseOptions [JStr ''/x'', JNum 0] [''path'', ''body''] [''callback'']
          = Inr [(''path'', JStr ''/x''), (''body'', JNum 0)]"
    by (simp add: parseOptions_positional fill_def)
  ultimately show ?thesis by simp
qed

text \<open>
  What \<^verbatim>\<open>parseOptions\<close> computes, for all arguments. With no arguments it returns the
  empty record when no field is required and fails otherwise. With a string as first
  argument it fails when there are fewer arguments than required fields; otherwise it
  fills the required fields from the arguments in order, then the optional fields from the
  arguments that follow, in order, and ignores the arguments beyond those. With any other
  first argument (not \<^verbatim>\<open>undefined\<close> or \<^verbatim>\<open>null\<close>) it fails naming the first required key
  whose value in that object is falsy; otherwise it copies every property of the object
  into the result and then fills the optional fields from the arguments after the first,
  in order.
\<close>

lemma parseOptions_normalizes:
  "parseOptions [] req opt = (if req = [] then Inr [] else Inl (moreArgumentsError req)) \<and>
   parseOptions (JStr s # rest) req opt =
     (if length (JStr s # rest) < length req then Inl (moreArgumentsError req)
      else Inr (fill opt (take (length opt) (drop (length req) (JStr s # rest)))
                  (fill req (JStr s # rest) []))) \<and>
   (\<not> isString a \<and> a \<noteq> JUndefined \<and> a \<noteq> JNull \<longrightarrow>
      parseOptions (a # rest) req opt =
        (case find (\<lambda>k. \<not> truthy (optProp a k)) req of
           Some k \<Rightarrow> Inl (missingArgError k)
         | None \<Rightarrow> Inr (fill opt (take (length opt) rest)
                         (fold (\<lambda>p. setOwn (fst p) (snd p)) (enumerable a) [])))) \<and>
   (distinct (map fst ps) \<and> (\<forall>k\<in>set req. truthy (getOwn ps k)) \<longrightarrow>
      parseOptions (JObj ps # rest) req opt = Inr (fill opt (take (length opt) rest) ps))"
proof -
  have "zip opt (take (length opt) vals) = zip opt vals" for vals :: "jsval list"
    by (rule nth_equalityI) auto
  then have ft: "fill opt (take (length opt) vals) r = fill opt vals r" for vals r
    by (simp add: fill_def)
  have none: "find (\<lambda>k. \<not> truthy (optProp (JObj ps) k)) req = None"
    if "\<forall>k\<in>set req. truthy (getOwn ps k)"
    using that by (simp add: find_None_iff optProp_def getProp_obj)
  have copy: "fold (\<lambda>p. setOwn (fst p) (snd p)) (enumerable (JObj ps)) [] = ps"
    if "distinct (map fst ps)"
    using fold_setOwn_distinct [of "[]" ps] that by (simp add: enumerable_def)
  have c1: "parseOptions [] req opt = (if req = [] then Inr [] else Inl (moreArgumentsError req))"
    by (rule parseOptions_no_arguments)
  have c2: "parseOptions (JStr s # rest) req opt =
     (if length (JStr s # rest) < length req then Inl (moreArgumentsError req)
      else Inr (fill opt (take (length opt) (drop (length req) (JStr s # rest)))
                  (fill req (JStr s # rest) [])))"
    unfolding ft by (rule parseOptions_positional)
  have c3: "parseOptions (a # rest) req opt =
        (case find (\<lambda>k. \<not> truthy (optProp a k)) req of
           Some k \<Rightarrow> Inl (missingArgError k)
         | None \<Rightarrow> Inr (fill opt (take (length opt) rest)
                         (fold (\<lambda>p. setOwn (fst p) (snd p)) (enumerable a) [])))"
    if "\<not> isString a \<and> a \<noteq> JUndefined \<and> a \<noteq> JNull"
    unfolding ft using that by (intro parseOptions_object) simp_all
  have c4: "parseOptions (JObj ps # rest) req opt = Inr (fill opt (take (length opt) rest) ps)"
    if "distinct (map fst ps) \<and> (\<forall>k\<in>set req. truthy (getOwn ps k))"
    unfolding ft using that parseOptions_object [of "JObj ps" rest req opt]
    by (simp add: none copy isString_def)
  from c1 c2 c3 c4 show ?thesis by blast
qed

lemma parseOptions_normalizes_examples:
  "parseOptions [] [] [''callback''] = Inr [] \<and>
   parseOptions [JStr ''/foo''] [''path'', ''body''] [''callback''] =
     Inl (Error ''More arguments required (path,body)'') \<and>
   parseOptions [JStr ''/foo'', JNum 1, JNum 2, JNum 3] [''path'', ''body''] [''callback''] =
     Inr [(''path'', JStr ''/foo''), (''body'', JNum 1), (''callback'', JNum 2)] \<and>
   parseOptions [JObj [(''path'', JStr ''/x'')]] [''path'', ''body''] [''callback''] =
     Inl (Error ''Missing required argument: body'') \<and>
   parseOptions [JObj [(''path'', JStr ''/x''), (''extra'', JNum 1)], JFun ''f'', JNum 5]
       [''path''] [''callback''] =
     Inr [(''path'', JStr ''/x''), (''extra'', JNum 1), (''callback'', JFun ''f'')]"
  using parseOptions_normalizes [of "[]" "[''callback'']"]
    parseOptions_normalizes [of "[''path'', ''body'']" "[''callback'']" "''/foo''" "[]"]
    parseOptions_normalizes [of "[''path'', ''body'']" "[''callback'']" "''/foo''"
       "[JNum 1, JNum 2, JNum 3]"]
    parseOptions_normalizes [of "[''path'', ''body'']" "[''callback'']" _ "[]"
       "JObj [(''path'', JStr ''/x'')]"]
    parseOptions_normalizes [of "[''path'']" "[''callback'']" _ "[JFun ''f'', JNum 5]" _
       "[(''path'', JStr ''/x''), (''extra'', JNum 1)]"]
  by (simp add: fill_def moreArgumentsError_def missingArgError_def isString_def optProp_def
      getProp_obj getOwn_def)


section \<open>Requests of the JSON verbs\<close>

lemma finishReq_result:
  assumes "finishReq options ro co = Inr req"
  shows "errorListeners req = [] \<and> written req = [] \<and> \<not> ended req \<and>
         callback req = getOwn options ''callback'' \<and>
         getOwn (reqHeaders req) ''Host'' =
           JStr (js_toString (getOwn options ''host'') @ '':'' @ js_toString (getOwn options ''port''))"
  using assms
  by (auto simp: finishReq_def http_request_def removeHeader_def setHeader_def getOwn_setOwn
      split: sum.splits if_splits)

lemma builders_result:
  assumes "getGetReq options co = Inr req \<or> getDeleteReq options co = Inr req \<or>
           getPutReq options co = Inr req \<or> getPostReq options co = Inr req"
  shows "errorListeners req = [] \<and> written req = [] \<and> \<not> ended req \<and>
         callback req = getOwn options ''callback'' \<and>
         getOwn (reqHeaders req) ''Host'' =
           JStr (js_toString (getOwn options ''host'') @ '':'' @ js_toString (getOwn options ''port''))"
  using assms
  by (auto simp: getGetReq_def getDeleteReq_def getPutReq_def getPostReq_def
      split: option.splits dest: finishReq_result)

lemma finishReq_undefined:
  "finishReq options ro None = Inl (TypeError ''Object.getOwnPropertyNames of undefined'')"
  by (simp add: finishReq_def mergeOptions_undefined)


lemma verbs_result:
  assumes "getJSON c args = (Inr req, c') \<or> deleteJSON c args = (Inr req, c') \<or>
           putJSON c args = (Inr req, c') \<or> postJSON c args = (Inr req, c')"
  shows "errorListeners req = [ErrorProxy] \<and> ended req \<and> c' = c\<lparr>sent := sent c @ [req]\<rparr> \<and>
         getOwn (reqHeaders req) ''Host'' = JStr ''undefined:undefined''"
proof -
  have fin: "errorListeners (req_end (installErrorProxy r)) = [ErrorProxy] \<and>
             ended (req_end (installErrorProxy r)) \<and>
             reqHeaders (req_end (installErrorProxy r)) = reqHeaders r \<and>
             errorListeners (req_end (req_write t (installErrorProxy r))) = [ErrorProxy] \<and>
             ended (req_end (req_write t (installErrorProxy r))) \<and>
             reqHeaders (req_end (req_write t (installErrorProxy r))) = reqHeaders r"
    if "errorListeners r = []" for r t
    using that by (simp add: req_end_def req_write_def installErrorProxy_def on_error_def)
  from assms show ?thesis
  proof (elim disjE)
    assume "getJSON c args = (Inr req, c')"
    then show ?thesis
      by (auto simp: getJSON_def Let_def split: sum.splits
          dest!: builders_result [OF disjI1] simp: fin getOwn_def)
  next
    assume "deleteJSON c args = (Inr req, c')"
    then show ?thesis
      by (auto simp: deleteJSON_def Let_def split: sum.splits
          dest!: builders_result [OF disjI2, OF disjI1] simp: fin getOwn_def)
  next
    assume "putJSON c args = (Inr req, c')"
    then show ?thesis
      by (auto simp: putJSON_def Let_def split: sum.splits
          dest!: builders_result [OF disjI2, OF disjI2, OF disjI1] simp: fin getOwn_def)
  next
    assume "postJSON c args = (Inr req, c')"
    then show ?thesis
      by (auto simp: postJSON_def Let_def split: sum.splits
          dest!: builders_result [OF disjI2, OF disjI2, OF disjI2] simp: fin getOwn_def)
  qed
qed


section \<open>A client that never logged in\<close>



section \<open>The request of \<^verbatim>\<open>putJSON\<close>\<close>


text \<open>
  A body that \<^verbatim>\<open>JSON.stringify\<close> gives no text for (\<^verbatim>\<open>undefined\<close>, a function): reading
  the \<^verbatim>\<open>length\<close> of the undefined result throws.
\<close>

lemma putJSON_no_json_text:
  assumes "b = JUndefined \<or> b = JFun f"
  shows "putJSON c [JStr p, b] = (Inl (TypeError ''property length of undefined''), c)"
proof -
  have po: "parseOptions [JStr p, b] [''path'', ''body''] [''callback''] =
            Inr [(''path'', JStr p), (''body'', b)]"
    by (simp add: parseOptions_positional fill_def)
  show ?thesis
    using assms
    by (auto simp: putJSON_def po getOwn_def toJsonString_def isString_def JSON_stringify_def
        getProp_def)
qed




section \<open>The \<^verbatim>\<open>Host\<close> header\<close>

text \<open>
  Every builder sets \<^verbatim>\<open>Host\<close> from the \<^verbatim>\<open>host\<close> and \<^verbatim>\<open>port\<close> of its first argument,
  the caller's local options, not from the connection options. \<^verbatim>\<open>logIn\<close> puts both into
  its local options; \<^verbatim>\<open>logOut\<close> and the JSON verbs do not, and their requests carry
  the text of two undefined values.
\<close>

lemma logOut_host_header:
  assumes "logOut c options = (Inr (), c')"
  shows "\<exists>req. c' = c\<lparr>sent := sent c @ [req]\<rparr> \<and>
           getOwn (reqHeaders req) ''Host'' = JStr ''undefined:undefined''"
  using assms
  by (auto simp: logOut_def Let_def req_end_def on_error_def getOwn_def
      split: sum.splits dest!: builders_result [OF disjI1])

lemma getJSON_sends:
  assumes "apiPrefix c = ''/lrs/api/v1.0''"
    and "connectionOptions c = Some co" and "loginTarget co"
  shows "\<exists>req. getJSON c [JStr p] = (Inr req, c\<lparr>sent := sent c @ [req]\<rparr>) \<and>
           getOwn (requestOptions req) ''path'' = JStr (''/lrs/api/v1.0'' @ p) \<and>
           getOwn (requestOptions req) ''method'' = JStr ''GET'' \<and>
           getOwn (requestOptions req) ''host'' = getOwn co ''host'' \<and>
           getOwn (requestOptions req) ''port'' = getOwn co ''port'' \<and>
           getOwn (requestOptions req) ''socketPath'' = getOwn co ''socketPath'' \<and>
           getOwn (reqHeaders req) ''Cookie'' = (if truthy (sid c) then sid c else JUndefined)"
proof -
  have po: "parseOptions [JStr p] [''path''] [''callback''] = Inr [(''path'', JStr p)]"
    by (simp add: parseOptions_positional fill_def)
  from assms(3) consider h q where "co = [(''host'', h), (''port'', q)]"
    | "co = [(''socketPath'', JStr unixSockName)]"
    by (auto simp: loginTarget_def)
  then show ?thesis
  proof cases
    case 1
    show ?thesis using assms(1,2) 1
      by (simp add: getJSON_def po getOwn_def getProp_obj getGetReq_def js_or_def
          printResponse_def finishReq_def mergeOptions_def getOwnPropertyNames_def copyProps_def
          props_def setCookie_def http_request_def removeHeader_def setHeader_def
          installErrorProxy_def on_error_def req_end_def Let_def)
  next
    case 2
    show ?thesis using assms(1,2) 2
      by (simp add: getJSON_def po getOwn_def getProp_obj getGetReq_def js_or_def
          printResponse_def finishReq_def mergeOptions_def getOwnPropertyNames_def copyProps_def
          props_def setCookie_def http_request_def removeHeader_def setHeader_def
          installErrorProxy_def on_error_def req_end_def Let_def)
  qed
qed

text \<open>
  Claim C2 at a client connected to \<open>10.0.0.1:8080\<close>: \<^verbatim>\<open>getJSON('/foo')\<close> sends its
  request to that host and port, the merged request options hold them, and the
  \<^verbatim>\<open>Host\<close> header is \<^verbatim>\<open>undefined:undefined\<close>.
\<close>

theorem getJSON_host_header:
  "\<exists>req c'. getJSON (snd (logIn Client (JObj [(''host'', JStr ''10.0.0.1''), (''port'', JNum 8080)])))
               [JStr ''/foo''] = (Inr req, c') \<and>
     connectionOptions c' = Some [(''host'', JStr ''10.0.0.1''), (''port'', JNum 8080)] \<and>
     getOwn (requestOptions req) ''host'' = JStr ''10.0.0.1'' \<and>
     getOwn (requestOptions req) ''port'' = JNum 8080 \<and>
     getOwn (reqHeaders req) ''Host'' = JStr ''undefined:undefined''"
proof -
  have o: "optProp (js_or (JObj [(''host'', JStr ''10.0.0.1''), (''port'', JNum 8080)]) (JObj [])) k
           = getOwn [(''host'', JStr ''10.0.0.1''), (''port'', JNum 8080)] k" for k
    by (simp add: js_or_def optProp_def getProp_obj)
  have "\<exists>r. logIn Client (JObj [(''host'', JStr ''10.0.0.1''), (''port'', JNum 8080)]) =
          (Inr (), Client\<lparr>connectionOptions := Some [(''host'', JStr ''10.0.0.1''), (''port'', JNum 8080)],
                          sent := [r]\<rparr>)"
    by (subst logIn_posts [OF _ _ refl refl refl refl])
       (simp_all add: o getOwn_def, simp add: js_or_def Client_def)
  then obtain r where c0: "logIn Client (JObj [(''host'', JStr ''10.0.0.1''), (''port'', JNum 8080)]) =
          (Inr (), Client\<lparr>connectionOptions := Some [(''host'', JStr ''10.0.0.1''), (''port'', JNum 8080)],
                          sent := [r]\<rparr>)" ..
  let ?cl = "snd (logIn Client (JObj [(''host'', JStr ''10.0.0.1''), (''port'', JNum 8080)]))"
  have cl: "connectionOptions ?cl = Some [(''host'', JStr ''10.0.0.1''), (''port'', JNum 8080)]"
    "apiPrefix ?cl = ''/lrs/api/v1.0''" "sid ?cl = JUndefined"
    by (simp_all add: c0) (simp_all add: Client_def)
  have "loginTarget [(''host'', JStr ''10.0.0.1''), (''port'', JNum 8080)]"
    by (simp add: loginTarget_def)
  from getJSON_sends [OF cl(2) cl(1) this, of "''/foo''"] obtain req where
    g: "getJSON ?cl [JStr ''/foo''] = (Inr req, ?cl\<lparr>sent := sent ?cl @ [req]\<rparr>)"
    and h: "getOwn (requestOptions req) ''host'' = JStr ''10.0.0.1''"
           "getOwn (requestOptions req) ''port'' = JNum 8080"
    by (auto simp: getOwn_def)
  from verbs_result [OF disjI1, OF g] have "getOwn (reqHeaders req) ''Host'' = JStr ''undefined:undefined''"
    by simp
  with g h cl(1) show ?thesis by simp
qed


section \<open>Logging out\<close>

lemma getGetReq_target:
  assumes "loginTarget co" and "truthy path"
    and "hs = (if truthy cookie then [(''Accept'', JStr ''*/*''), (''Cookie'', cookie)]
               else [(''Accept'', JStr ''*/*'')])"
  shows "getGetReq [(''path'', path), (''cookie'', cookie), (''callback'', cb)] (Some co) =
         Inr \<lparr> requestOptions = [(''path'', path), (''method'', JStr ''GET''),
                                   (''agent'', JBool False), (''headers'', JObj hs)] @ co,
                callback = cb,
                reqHeaders = hs @ [(''Host'', JStr ''undefined:undefined'')],
                errorListeners = [], written = [], ended = False \<rparr>"
proof -
  from assms(1) consider h q where "co = [(''host'', h), (''port'', q)]"
    | "co = [(''socketPath'', JStr unixSockName)]"
    by (auto simp: loginTarget_def)
  then show ?thesis
  proof cases
    case 1
    show ?thesis using assms(2) unfolding assms(3) 1
      by (simp add: getOwn_def getProp_obj getGetReq_def
          finishReq_def mergeOptions_def getOwnPropertyNames_def copyProps_def
          props_def setCookie_def http_request_def removeHeader_def setHeader_def)
  next
    case 2
    show ?thesis using assms(2) unfolding assms(3) 2
      by (simp add: getOwn_def getProp_obj getGetReq_def
          finishReq_def mergeOptions_def getOwnPropertyNames_def copyProps_def
          props_def setCookie_def http_request_def removeHeader_def setHeader_def)
  qed
qed

lemma logOut_returns:
  assumes "connectionOptions c = Some co" and "loginTarget co"
  shows "\<exists>req. logOut c options = (Inr (), c\<lparr>sent := sent c @ [req]\<rparr>) \<and>
           callback req = logOut_callback \<and> errorListeners req = [LogoutRequestFailure] \<and>
           ended req \<and> getOwn (requestOptions req) ''method'' = JStr ''GET'' \<and>
           getOwn (requestOptions req) ''path'' =
             js_or (optProp (js_or options (JObj [])) ''path'') (JStr ''/logout'') \<and>
           getOwn (reqHeaders req) ''Cookie'' = (if truthy (sid c) then sid c else JUndefined)"
proof -
  have tp: "truthy (js_or (optProp (js_or options (JObj [])) ''path'') (JStr ''/logout''))"
    by (rule truthy_js_or) simp
  let ?hs = "if truthy (sid c) then [(''Accept'', JStr ''*/*''), (''Cookie'', sid c)]
             else [(''Accept'', JStr ''*/*'')]"
  let ?R = "\<lparr> requestOptions =
               [(''path'', js_or (optProp (js_or options (JObj [])) ''path'') (JStr ''/logout'')),
                (''method'', JStr ''GET''), (''agent'', JBool False), (''headers'', JObj ?hs)] @ co,
             callback = logOut_callback,
             reqHeaders = ?hs @ [(''Host'', JStr ''undefined:undefined'')],
             errorListeners = [], written = [], ended = False \<rparr>"
  note g = getGetReq_target [OF assms(2) tp refl, of "sid c" logOut_callback]
  have eq: "logOut c options =
              (Inr (), c\<lparr>sent := sent c @ [req_end (on_error LogoutRequestFailure ?R)]\<rparr>)"
    unfolding logOut_def Let_def assms(1) g by simp
  show ?thesis
    unfolding eq
    by (rule exI [of _ "req_end (on_error LogoutRequestFailure ?R)"])
       (simp add: on_error_def req_end_def getOwn_def)
qed

lemma logOut_undefined:
  "connectionOptions c = None \<Longrightarrow>
   logOut c options = (Inl (TypeError ''Object.getOwnPropertyNames of undefined''), c)"
  using truthy_js_or [of "JStr ''/logout''" "optProp (js_or options (JObj [])) ''path''"]
  by (simp add: logOut_def getGetReq_def getProp_obj getOwn_def finishReq_undefined)

text \<open>
  Claim C7. The response callback of \<^verbatim>\<open>logOut\<close> looks at nothing of the response: on any
  response, in any state, it sets \<^verbatim>\<open>loggedIn\<close> to false and emits \<^verbatim>\<open>logout\<close>, and
  throws nothing. And after a \<^verbatim>\<open>logOut\<close> that completed (the call returned, its request
  carrying that callback, and a response came), a second \<^verbatim>\<open>logOut\<close> returns as well,
  raising nothing, and its response emits \<^verbatim>\<open>logout\<close> again.
\<close>

theorem logOut_twice:
  "logOut_response s r =
     (Inr (), s\<lparr>loggedIn := False, emitted := emitted s @ [Emit_logout]\<rparr>) \<and>
   (reachable c \<and> logOut c options1 = (Inr (), c1) \<longrightarrow>
      (\<exists>req1. c1 = c\<lparr>sent := sent c @ [req1]\<rparr> \<and> callback req1 = logOut_callback) \<and>
      (\<exists>req2. logOut (snd (logOut_response c1 r1)) options2 =
                 (Inr (), (snd (logOut_response c1 r1))\<lparr>sent := sent c1 @ [req2]\<rparr>) \<and>
               callback req2 = logOut_callback \<and>
               logOut_response ((snd (logOut_response c1 r1))\<lparr>sent := sent c1 @ [req2]\<rparr>) r2 =
                 (Inr (), c\<lparr>loggedIn := False, emitted := emitted c @ [Emit_logout, Emit_logout],
                    sent := sent c1 @ [req2]\<rparr>)))"
proof -
  have resp: "logOut_response s r =
                (Inr (), s\<lparr>loggedIn := False, emitted := emitted s @ [Emit_logout]\<rparr>)"
    for s r
    by (simp add: logOut_response_def emit_def deliver_def)
  have twice: "(\<exists>req1. c1 = c\<lparr>sent := sent c @ [req1]\<rparr> \<and> callback req1 = logOut_callback) \<and>
      (\<exists>req2. logOut (snd (logOut_response c1 r1)) options2 =
                 (Inr (), (snd (logOut_response c1 r1))\<lparr>sent := sent c1 @ [req2]\<rparr>) \<and>
               callback req2 = logOut_callback \<and>
               logOut_response ((snd (logOut_response c1 r1))\<lparr>sent := sent c1 @ [req2]\<rparr>) r2 =
                 (Inr (), c\<lparr>loggedIn := False, emitted := emitted c @ [Emit_logout, Emit_logout],
                    sent := sent c1 @ [req2]\<rparr>))"
    if re: "reachable c" and lo: "logOut c options1 = (Inr (), c1)"
  proof -
    let ?after = "snd (logOut_response c1 r1)"
    have "connectionOptions c \<noteq> None"
      using lo logOut_undefined [of c options1] by auto
    with reachable_invariant [OF re] obtain co where
      co: "connectionOptions c = Some co" and tg: "loginTarget co" by auto
    from logOut_returns [OF co tg, of options1] obtain req1 where
      x1: "logOut c options1 = (Inr (), c\<lparr>sent := sent c @ [req1]\<rparr>)"
      and cb1: "callback req1 = logOut_callback"
      by blast
    have c1: "c1 = c\<lparr>sent := sent c @ [req1]\<rparr>"
      using lo x1 by simp
    have co1: "connectionOptions ?after = Some co"
      using co c1 by (simp add: resp)
    from logOut_returns [OF co1 tg, of options2] obtain req2 where
      x2: "logOut ?after options2 = (Inr (), ?after\<lparr>sent := sent ?after @ [req2]\<rparr>)"
      and cb2: "callback req2 = logOut_callback"
      by blast
    have s1: "sent ?after = sent c1"
      by (simp add: resp)
    have l2: "logOut ?after options2 = (Inr (), ?after\<lparr>sent := sent c1 @ [req2]\<rparr>)"
      using x2 unfolding s1 .
    have e2: "logOut_response (?after\<lparr>sent := sent c1 @ [req2]\<rparr>) r2 =
                 (Inr (), c\<lparr>loggedIn := False, emitted := emitted c @ [Emit_logout, Emit_logout],
                    sent := sent c1 @ [req2]\<rparr>)"
      by (simp add: resp c1)
    have first: "\<exists>req1. c1 = c\<lparr>sent := sent c @ [req1]\<rparr> \<and> callback req1 = logOut_callback"
      using c1 cb1 by blast
    have second: "\<exists>req2. logOut ?after options2 =
                 (Inr (), ?after\<lparr>sent := sent c1 @ [req2]\<rparr>) \<and>
               callback req2 = logOut_callback \<and>
               logOut_response (?after\<lparr>sent := sent c1 @ [req2]\<rparr>) r2 =
                 (Inr (), c\<lparr>loggedIn := False, emitted := emitted c @ [Emit_logout, Emit_logout],
                    sent := sent c1 @ [req2]\<rparr>)"
      using l2 cb2 e2 by blast
    from first second show ?thesis by (rule conjI)
  qed
  show ?thesis
  proof (intro conjI impI)
    show "logOut_response s r =
            (Inr (), s\<lparr>loggedIn := False, emitted := emitted s @ [Emit_logout]\<rparr>)"
      by (rule resp)
  next
    assume "reachable c \<and> logOut c options1 = (Inr (), c1)"
    then show "\<exists>req1. c1 = c\<lparr>sent := sent c @ [req1]\<rparr> \<and> callback req1 = logOut_callback"
      using twice by (elim conjE) (rule conjunct1)
  next
    assume "reachable c \<and> logOut c options1 = (Inr (), c1)"
    then show "\<exists>req2. logOut (snd (logOut_response c1 r1)) options2 =
                 (Inr (), (snd (logOut_response c1 r1))\<lparr>sent := sent c1 @ [req2]\<rparr>) \<and>
               callback req2 = logOut_callback \<and>
               logOut_response ((snd (logOut_response c1 r1))\<lparr>sent := sent c1 @ [req2]\<rparr>) r2 =
                 (Inr (), c\<lparr>loggedIn := False, emitted := emitted c @ [Emit_logout, Emit_logout],
                    sent := sent c1 @ [req2]\<rparr>)"
      using twice by (elim conjE) (rule conjunct2)
  qed
qed

theorem logOut_twice_witness:
  "\<exists>c1 c2. logOut (snd (logIn Client JUndefined)) JUndefined = (Inr (), c1) \<and>
     logOut (snd (logOut_response c1 \<lparr>statusCode = 500, headers = [], chunks = [''no'']\<rparr>))
       JUndefined = (Inr (), c2) \<and>
     (\<exists>c3. logOut_response c2 \<lparr>statusCode = 200, headers = [], chunks = []\<rparr> = (Inr (), c3) \<and>
        emitted c3 = [Emit_logout, Emit_logout] \<and> loggedIn c3 = False)"
proof -
  let ?start = "snd (logIn Client JUndefined)"
  let ?r1 = "\<lparr>statusCode = 500, headers = [], chunks = [''no'']\<rparr>"
  let ?r2 = "\<lparr>statusCode = 200, headers = [], chunks = []\<rparr>"
  have re: "reachable ?start"
    by (intro reachable.called_logIn reachable.constructed)
  have st: "connectionOptions ?start = Some [(''socketPath'', JStr unixSockName)]"
    "emitted ?start = []"
    by (simp_all add: logIn_def js_or_def optProp_def getProp_obj getOwn_def Client_def props_def)
  have "loginTarget [(''socketPath'', JStr unixSockName)]"
    by (simp add: loginTarget_def)
  from logOut_returns [OF st(1) this, of JUndefined] obtain c1 where
    l1: "logOut ?start JUndefined = (Inr (), c1)" by blast
  from logOut_twice [of _ _ ?start JUndefined c1 ?r1 JUndefined ?r2] re l1
  obtain req2 where
    a: "logOut (snd (logOut_response c1 ?r1)) JUndefined =
          (Inr (), (snd (logOut_response c1 ?r1))\<lparr>sent := sent c1 @ [req2]\<rparr>)"
    and b: "logOut_response ((snd (logOut_response c1 ?r1))\<lparr>sent := sent c1 @ [req2]\<rparr>) ?r2 =
            (Inr (), ?start\<lparr>loggedIn := False,
                    emitted := emitted ?start @ [Emit_logout, Emit_logout],
                    sent := sent c1 @ [req2]\<rparr>)"
    by blast
  show ?thesis
    apply (rule exI [of _ c1])
    apply (rule exI [of _ "(snd (logOut_response c1 ?r1))\<lparr>sent := sent c1 @ [req2]\<rparr>"])
    apply (simp only: l1 a b)
    apply (simp add: st(2))
    done
qed


section \<open>Transport errors on a request of a JSON verb\<close>

lemma callers_run:
  assumes "list_all isCaller ls" and "list_all persistent kept"
  shows "runErrorListeners (ls @ rest) error (req\<lparr>errorListeners := kept @ ls @ behind\<rparr>) s =
         runErrorListeners rest error
           (req\<lparr>errorListeners := kept @ filter persistent ls @ behind\<rparr>) s"
  using assms
proof (induction ls arbitrary: kept)
  case Nil
  show ?case by simp
next
  case (Cons l ls)
  show ?case
  proof (cases l)
    case (Caller f)
    have "list_all persistent (kept @ [l])" using Cons.prems Caller by simp
    from Cons.IH [OF _ this] Cons.prems Caller show ?thesis by simp
  next
    case (CallerOnce f)
    have out: "CallerOnce f \<notin> set kept"
      using Cons.prems(2) by (auto simp: list_all_iff)
    from Cons.IH [OF _ Cons.prems(2)] Cons.prems(1) CallerOnce out show ?thesis
      by (simp add: remove_error_def remove1_append)
  qed (use Cons.prems in simp_all)
qed

lemma proxy_dispatch:
  assumes "list_all isCaller pre" and "list_all isCaller post"
    and "errorListeners req = pre @ ErrorProxy # post"
  shows "fst (emitError req error s) =
           (if filter persistent pre = [] \<and> post = [] \<and> errorHandlers s = 0
            then Inl (Unhandled error) else Inr ()) \<and>
         snd (snd (emitError req error s)) =
           (if filter persistent pre = [] \<and> post = [] \<and> errorHandlers s \<noteq> 0
            then s\<lparr>emitted := emitted s @ [Emit_error error]\<rparr> else s)"
proof -
  have same: "req\<lparr>errorListeners := pre @ ErrorProxy # post\<rparr> = req"
    using assms(3) by (cases req) simp
  have "emitError req error s = runErrorListeners (pre @ ErrorProxy # post) error req s"
    using assms(3) by (simp add: emitError_def)
  also have "\<dots> = runErrorListeners (pre @ ErrorProxy # post) error
        (req\<lparr>errorListeners := [] @ pre @ ErrorProxy # post\<rparr>) s"
    by (simp only: same append_Nil)
  also have "\<dots> = runErrorListeners (ErrorProxy # post) error
        (req\<lparr>errorListeners := [] @ filter persistent pre @ ErrorProxy # post\<rparr>) s"
    by (rule callers_run [OF assms(1)]) simp
  finally have start: "emitError req error s =
      runErrorListeners (ErrorProxy # post) error
        (req\<lparr>errorListeners := filter persistent pre @ ErrorProxy # post\<rparr>) s"
    by (simp only: append_Nil)
  show ?thesis
  proof (cases "filter persistent pre = [] \<and> post = []")
    case True
    then show ?thesis
      by (simp add: start emit_def deliver_def)
  next
    case False
    have kept: "list_all persistent (filter persistent pre @ [ErrorProxy])"
      by (simp add: list_all_iff)
    have "emitError req error s =
      runErrorListeners post error
        (req\<lparr>errorListeners := (filter persistent pre @ [ErrorProxy]) @ post @ []\<rparr>) s"
      using False by (auto simp: start)
    also have "\<dots> = runErrorListeners [] error
        (req\<lparr>errorListeners := (filter persistent pre @ [ErrorProxy]) @ filter persistent post @ []\<rparr>) s"
      using callers_run [OF assms(2) kept, where rest = "[]" and behind = "[]" and req = req and
          error = error and s = s]
      by (simp only: append_Nil2)
    finally show ?thesis using False by auto
  qed
qed

text \<open>
  A caller that puts a one-shot listener in front of the proxy has registered an
  \<^verbatim>\<open>error\<close> listener, and the request has two listeners when the error fires; by the
  time the proxy runs the one-shot listener is gone, and the client emits \<^verbatim>\<open>error\<close>.
\<close>

theorem error_proxy_counterexample:
  "\<exists>req c'. getJSON (snd (logIn (client_on_error Client) JUndefined)) [JStr ''/foo''] = (Inr req, c') \<and>
     errorListeners (prepend_error (CallerOnce ''f'') req) = [CallerOnce ''f'', ErrorProxy] \<and>
     emitError (prepend_error (CallerOnce ''f'') req) (JStr ''ECONNREFUSED'') c' =
       (Inr (), req, c'\<lparr>emitted := emitted c' @ [Emit_error (JStr ''ECONNREFUSED'')]\<rparr>)"
proof -
  let ?start = "snd (logIn (client_on_error Client) JUndefined)"
  have st: "connectionOptions ?start = Some [(''socketPath'', JStr unixSockName)]"
    "apiPrefix ?start = ''/lrs/api/v1.0''" "errorHandlers ?start = Suc 0"
    by (simp_all add: logIn_def js_or_def optProp_def getProp_obj getOwn_def Client_def props_def
        client_on_error_def)
  have "loginTarget [(''socketPath'', JStr unixSockName)]"
    by (simp add: loginTarget_def)
  from getJSON_sends [OF st(2) st(1) this, of "''/foo''"] obtain req where
    g: "getJSON ?start [JStr ''/foo''] = (Inr req, ?start\<lparr>sent := sent ?start @ [req]\<rparr>)"
    by blast
  from verbs_result [OF disjI1, OF g] have l: "errorListeners req = [ErrorProxy]" by simp
  have same: "req\<lparr>errorListeners := [ErrorProxy]\<rparr> = req"
    using l by (cases req) simp
  have "emitError (prepend_error (CallerOnce ''f'') req) (JStr ''ECONNREFUSED'')
          (?start\<lparr>sent := sent ?start @ [req]\<rparr>) =
        (Inr (), req, ?start\<lparr>sent := sent ?start @ [req],
           emitted := emitted ?start @ [Emit_error (JStr ''ECONNREFUSED'')]\<rparr>)"
    by (simp add: emitError_def prepend_error_def remove_error_def l same emit_def deliver_def st)
  with g l show ?thesis
    by (intro exI [of _ req] exI [of _ "?start\<lparr>sent := sent ?start @ [req]\<rparr>"])
       (simp add: prepend_error_def)
qed

text \<open>
  Claim C8, amended. A request that a JSON verb returned has the error proxy as its only
  \<^verbatim>\<open>error\<close> listener. Let the caller then have listeners \<open>pre\<close> in front of the proxy
  and \<open>post\<close> behind it. When a transport error fires, the error goes to the client's
  \<^verbatim>\<open>error\<close> event exactly when the proxy is the request's only listener at the moment
  the proxy runs, that is when the caller has no listener behind the proxy and none but
  one-shot listeners in front of it; otherwise the client is left as it was and nothing is
  thrown. A forwarded error is emitted to the client's \<^verbatim>\<open>error\<close> listeners when it has
  any, and thrown by the emit when it has none.
\<close>

theorem error_proxy_forwards:
  assumes "getJSON c args = (Inr req, c') \<or> deleteJSON c args = (Inr req, c') \<or>
           putJSON c args = (Inr req, c') \<or> postJSON c args = (Inr req, c')"
    and "list_all isCaller pre" and "list_all isCaller post"
  shows "errorListeners req = [ErrorProxy] \<and>
         fst (emitError (req\<lparr>errorListeners := pre @ errorListeners req @ post\<rparr>) error s) =
           (if filter persistent pre = [] \<and> post = [] \<and> errorHandlers s = 0
            then Inl (Unhandled error) else Inr ()) \<and>
         snd (snd (emitError (req\<lparr>errorListeners := pre @ errorListeners req @ post\<rparr>) error s)) =
           (if filter persistent pre = [] \<and> post = [] \<and> errorHandlers s \<noteq> 0
            then s\<lparr>emitted := emitted s @ [Emit_error error]\<rparr> else s)"
proof -
  have l: "errorListeners req = [ErrorProxy]"
    using verbs_result [OF assms(1)] by simp
  have "errorListeners (req\<lparr>errorListeners := pre @ errorListeners req @ post\<rparr>) =
        pre @ ErrorProxy # post"
    by (simp add: l)
  from proxy_dispatch [OF assms(2,3) this, where error = error and s = s] l
  show ?thesis by simp
qed

theorem error_proxy_forwards_witness:
  "\<exists>req c'. getJSON (snd (logIn (client_on_error Client) JUndefined)) [JStr ''/foo''] = (Inr req, c') \<and>
     errorListeners req = [ErrorProxy] \<and>
     snd (snd (emitError req (JStr ''ECONNREFUSED'') c')) =
       c'\<lparr>emitted := emitted c' @ [Emit_error (JStr ''ECONNREFUSED'')]\<rparr> \<and>
     snd (snd (emitError (on_error (Caller ''f'') req) (JStr ''ECONNREFUSED'') c')) = c' \<and>
     snd (snd (emitError (on_error (CallerOnce ''f'') req) (JStr ''ECONNREFUSED'') c')) = c' \<and>
     snd (snd (emitError (prepend_error (Caller ''f'') req) (JStr ''ECONNREFUSED'') c')) = c'"
proof -
  let ?start = "snd (logIn (client_on_error Client) JUndefined)"
  let ?e = "JStr ''ECONNREFUSED''"
  have st: "connectionOptions ?start = Some [(''socketPath'', JStr unixSockName)]"
    "apiPrefix ?start = ''/lrs/api/v1.0''" "errorHandlers ?start = Suc 0"
    by (simp_all add: logIn_def js_or_def optProp_def getProp_obj getOwn_def Client_def props_def
        client_on_error_def)
  have "loginTarget [(''socketPath'', JStr unixSockName)]"
    by (simp add: loginTarget_def)
  from getJSON_sends [OF st(2) st(1) this, of "''/foo''"] obtain req where
    g: "getJSON ?start [JStr ''/foo''] = (Inr req, ?start\<lparr>sent := sent ?start @ [req]\<rparr>)"
    by blast
  let ?cl = "?start\<lparr>sent := sent ?start @ [req]\<rparr>"
  note t = error_proxy_forwards [OF disjI1, OF g, where error = ?e and s = ?cl]
  have l: "errorListeners req = [ErrorProxy]" using t [where pre = "[]" and post = "[]"] by simp
  have same: "req\<lparr>errorListeners := [ErrorProxy]\<rparr> = req"
    using l by (cases req) simp
  have 1: "snd (snd (emitError req ?e ?cl)) = ?cl\<lparr>emitted := emitted ?cl @ [Emit_error ?e]\<rparr>"
    using t [where pre = "[]" and post = "[]"] by (simp add: l same st)
  have 2: "snd (snd (emitError (on_error (Caller ''f'') req) ?e ?cl)) = ?cl"
    using t [where pre = "[]" and post = "[Caller ''f'']"] by (simp add: l on_error_def)
  have 3: "snd (snd (emitError (on_error (CallerOnce ''f'') req) ?e ?cl)) = ?cl"
    using t [where pre = "[]" and post = "[CallerOnce ''f'']"] by (simp add: l on_error_def)
  have 4: "snd (snd (emitError (prepend_error (Caller ''f'') req) ?e ?cl)) = ?cl"
    using t [where pre = "[Caller ''f'']" and post = "[]"] by (simp add: l prepend_error_def)
  from g l 1 2 3 4 show ?thesis by blast
qed


end
